theory Spec2Isabelle
  imports Complex_Main "HOL-Library.AList" "HOL-Library.Stream"
begin

section \<open>quaylib: mirroring Docker Hub library images to Quay\<close>

text \<open>
  A shallow embedding of \<^verbatim>\<open>src/quaylib/main.py\<close>. The Python functions keep their
  names. Exceptions are values of the type \<open>error\<close>; a function that may raise returns
  its outcome together with the state it leaves behind, because the effects made before
  a raise (requests sent, processes started) stay made.
\<close>

subsection \<open>Timestamps\<close>

text \<open>
  A \<^verbatim>\<open>datetime\<close> is either naive (no \<^verbatim>\<open>tzinfo\<close>) or aware. Only the order of
  timestamps and the presence of a timezone matter to the program, so a naive value is
  its wall-clock reading in microseconds and an aware value is its instant in UTC, in
  microseconds. Python orders two naive values by wall clock, two aware values by
  instant, and raises \<^verbatim>\<open>TypeError\<close> when asked to order a naive and an aware value.
\<close>

datatype datetime = Naive int | Aware int

subsection \<open>Decoded JSON\<close>

datatype json =
    JNull
  | JBool bool
  | JInt int
  | JFloat real
  | JStr string
  | JArr "json list"
  | JObj "(string \<times> json) list"

subsection \<open>HTTP messages and exceptions\<close>

record response =
  status_code :: nat
  headers :: "string \<rightharpoonup> string"
  body_json :: "json option"

record http_request =
  req_method :: string
  req_url :: string
  req_params :: "(string \<times> json) list"
  req_json :: "json option"

datatype error =
    HTTPStatusError response
  | TransportError
  | JSONDecodeError
  | KeyError string
  | TypeError
  | ValueError
  | OverflowError
  | RecursionError
  | CalledProcessError int "string list"
  | OSError
  | Unmodelled

subsection \<open>Library functions\<close>

text \<open>
  The functions of the Python library that the program calls on text received from the
  registries are parameters of the model; nothing is assumed about them. So is the room
  that the recursion limit of the interpreter leaves to the rate-limited client.
  \<^item> \<open>py_int\<close> is \<^verbatim>\<open>int(s)\<close> on a \<^verbatim>\<open>str\<close>; \<open>None\<close> stands for \<^verbatim>\<open>ValueError\<close>.
  \<^item> \<open>fromisoformat\<close> is \<^verbatim>\<open>datetime.fromisoformat\<close> and \<open>parsedate_to_datetime\<close> is
    \<^verbatim>\<open>email.utils.parsedate_to_datetime\<close>, applied to a decoded JSON value.
  \<^item> \<open>dedent\<close> is \<^verbatim>\<open>textwrap.dedent\<close>.
  \<^item> \<open>py_str\<close> is how an f-string renders a decoded JSON value that is not a \<^verbatim>\<open>str\<close>.
  \<^item> \<open>spare_depth\<close>: a call of \<^verbatim>\<open>DockerClient.request\<close> made by the program can nest
    \<open>Suc spare_depth\<close> calls of itself before the interpreter raises
    \<^verbatim>\<open>RecursionError\<close>. The program runs with the default limit of 1000 frames and calls
    the client from a shallow stack, so there is room for one nested call at least, and
    for fewer than a thousand.
\<close>

record pylib =
  py_int :: "string \<Rightarrow> int option"
  fromisoformat :: "json \<Rightarrow> error + datetime"
  parsedate_to_datetime :: "json \<Rightarrow> error + datetime"
  dedent :: "string \<Rightarrow> string"
  py_str :: "json \<Rightarrow> string"
  spare_depth :: nat

text \<open>
  A tag map is a Python \<^verbatim>\<open>dict\<close>, which iterates in insertion order: an association
  list, read with \<open>map_of\<close> and written with \<open>AList.update\<close>, which replaces the value
  of a key already present and appends a new key at the end.
\<close>

type_synonym tags = "(string \<times> datetime) list"

subsection \<open>Operations on decoded JSON\<close>

text \<open>\<^verbatim>\<open>v[k]\<close> with a string key: only a \<^verbatim>\<open>dict\<close> can be subscripted by a string.\<close>

fun py_getitem :: "json \<Rightarrow> string \<Rightarrow> error + json" where
  "py_getitem (JObj kvs) k = (case map_of kvs k of None \<Rightarrow> Inl (KeyError k) | Some v \<Rightarrow> Inr v)"
| "py_getitem _ k = Inl TypeError"

text \<open>
  \<^verbatim>\<open>for x in v\<close>: a list yields its elements, a dict its keys, a string its characters;
  nothing else is iterable.
\<close>

fun py_iter :: "json \<Rightarrow> error + json list" where
  "py_iter (JArr xs) = Inr xs"
| "py_iter (JObj kvs) = Inr (map (\<lambda>kv. JStr (fst kv)) kvs)"
| "py_iter (JStr s) = Inr (map (\<lambda>c. JStr [c]) s)"
| "py_iter _ = Inl TypeError"

text \<open>Truth value of a decoded JSON value, as \<^verbatim>\<open>while v:\<close> and \<^verbatim>\<open>if v:\<close> test it.\<close>

fun truthy :: "json \<Rightarrow> bool" where
  "truthy JNull = False"
| "truthy (JBool b) = b"
| "truthy (JInt n) = (n \<noteq> 0)"
| "truthy (JFloat x) = (x \<noteq> 0)"
| "truthy (JStr s) = (s \<noteq> [])"
| "truthy (JArr xs) = (xs \<noteq> [])"
| "truthy (JObj kvs) = (kvs \<noteq> [])"

text \<open>
  A decoded JSON value used as a key of a tag map. Lists and dicts are unhashable.
  The registries name tags by strings; keys that are numbers, booleans or null are
  outside the model.
\<close>

fun dict_key :: "json \<Rightarrow> error + string" where
  "dict_key (JStr s) = Inr s"
| "dict_key (JArr xs) = Inl TypeError"
| "dict_key (JObj kvs) = Inl TypeError"
| "dict_key _ = Inl Unmodelled"

text \<open>A value interpolated into an f-string.\<close>

fun py_format :: "pylib \<Rightarrow> json \<Rightarrow> string" where
  "py_format L (JStr s) = s"
| "py_format L v = py_str L v"

subsection \<open>Responses\<close>

definition is_success :: "response \<Rightarrow> bool" where
  "is_success r \<longleftrightarrow> 200 \<le> status_code r \<and> status_code r \<le> 299"

definition is_redirect :: "response \<Rightarrow> bool" where
  "is_redirect r \<longleftrightarrow> 300 \<le> status_code r \<and> status_code r \<le> 399"

text \<open>\<^verbatim>\<open>r.raise_for_status()\<close> raises unless the status is 2xx.\<close>

definition raise_for_status :: "response \<Rightarrow> error + response" where
  "raise_for_status r = (if is_success r then Inr r else Inl (HTTPStatusError r))"

text \<open>\<^verbatim>\<open>r.json()\<close>\<close>

definition response_json :: "response \<Rightarrow> error + json" where
  "response_json r = (case body_json r of None \<Rightarrow> Inl JSONDecodeError | Some j \<Rightarrow> Inr j)"

subsection \<open>The world outside the process\<close>

text \<open>
  Each registry is the sequence of its replies to the requests the program sends it, in
  the order it sends them: a reply is a response, or an exception raised by the HTTP
  client (a timeout, a broken connection). The world also holds the Unix time, which
  \<^verbatim>\<open>time.time()\<close> reads, the delays passed to \<^verbatim>\<open>asyncio.sleep\<close>, and the requests sent
  to each registry. Time is a real number of seconds. Of Python's floats the model
  keeps the range and leaves out the rounding.
\<close>

type_synonym reply = "error + response"

record world =
  clock :: real
  sleeps :: "real list"
  docker_in :: "reply stream"
  docker_out :: "http_request list"
  quay_in :: "reply stream"
  quay_out :: "http_request list"

definition docker_send :: "http_request \<Rightarrow> world \<Rightarrow> reply \<times> world" where
  "docker_send rq w =
     (shd (docker_in w), w\<lparr>docker_in := stl (docker_in w), docker_out := docker_out w @ [rq]\<rparr>)"

definition quay_send :: "http_request \<Rightarrow> world \<Rightarrow> reply \<times> world" where
  "quay_send rq w =
     (shd (quay_in w), w\<lparr>quay_in := stl (quay_in w), quay_out := quay_out w @ [rq]\<rparr>)"

text \<open>
  \<^verbatim>\<open>asyncio.sleep(delay)\<close> returns at once when \<^verbatim>\<open>delay <= 0\<close>, and after \<^verbatim>\<open>delay\<close>
  seconds otherwise.
\<close>

definition asyncio_sleep :: "real \<Rightarrow> world \<Rightarrow> world" where
  "asyncio_sleep delay w = w\<lparr>sleeps := sleeps w @ [delay], clock := clock w + max 0 delay\<rparr>"

text \<open>
  The largest finite float, and \<^verbatim>\<open>time.time()\<close>: the clock read as a float, which is
  finite.
\<close>

definition float_max :: real where
  "float_max = 2 ^ 1024 - 2 ^ 971"

definition time_time :: "world \<Rightarrow> real" where
  "time_time w = max (- float_max) (min float_max (clock w))"

text \<open>
  The conversion of an \<^verbatim>\<open>int\<close> to a float, which \<^verbatim>\<open>int - float\<close> performs first: an
  integer that rounds beyond the largest float raises \<^verbatim>\<open>OverflowError\<close> (\<open>None\<close>).
\<close>

definition float_of_int :: "int \<Rightarrow> real option" where
  "float_of_int n = (if \<bar>n\<bar> < 2 ^ 1024 - 2 ^ 970 then Some (of_int n) else None)"

definition GET :: "string \<Rightarrow> http_request" where
  "GET url = \<lparr>req_method = ''GET'', req_url = url, req_params = [], req_json = None\<rparr>"

subsection \<open>The rate-limited client\<close>

text \<open>
  \<^verbatim>\<open>DockerClient.request\<close>, lines 34 to 41, with the number of nested calls of itself
  that the interpreter still allows. Python evaluates \<^verbatim>\<open>int(...)\<close>, then \<^verbatim>\<open>time.time()\<close>,
  then the difference, which converts the integer to a float. The nested call raises
  \<^verbatim>\<open>RecursionError\<close> when it is entered with no room left, after the sleep and before
  anything is sent.
\<close>

fun request_at :: "pylib \<Rightarrow> nat \<Rightarrow> http_request \<Rightarrow> world \<Rightarrow> reply \<times> world" where
  "request_at L room rq w =
     (case docker_send rq w of
        (Inl e, w1) \<Rightarrow> (Inl e, w1)
      | (Inr r, w1) \<Rightarrow>
          if status_code r \<noteq> 429 then (Inr r, w1)
          else (case headers r ''Retry-After'' of
                  None \<Rightarrow> (Inl (KeyError ''Retry-After''), w1)
                | Some v \<Rightarrow>
                    (case py_int L v of
                       None \<Rightarrow> (Inl ValueError, w1)
                     | Some n \<Rightarrow>
                         (case float_of_int n of
                            None \<Rightarrow> (Inl OverflowError, w1)
                          | Some x \<Rightarrow>
                              (let w2 = asyncio_sleep (x - time_time w1) w1 in
                               case room of
                                 0 \<Rightarrow> (Inl RecursionError, w2)
                               | Suc room' \<Rightarrow> request_at L room' rq w2)))))"

declare request_at.simps [simp del]

text \<open>A call of \<^verbatim>\<open>DockerClient.request\<close> made by the program.\<close>

definition request :: "pylib \<Rightarrow> http_request \<Rightarrow> world \<Rightarrow> reply \<times> world" where
  "request L rq w = request_at L (Suc (spare_depth L)) rq w"

text \<open>\<^verbatim>\<open>docker.get(url)\<close>\<close>

definition docker_get :: "pylib \<Rightarrow> string \<Rightarrow> world \<Rightarrow> reply \<times> world" where
  "docker_get L url w = request L (GET url) w"

subsection \<open>Ensuring the Quay repository exists with the right description\<close>

definition nl :: string where
  "nl = [CHR 0x0A]"

definition dq :: string where
  "dq = [CHR 0x22]"

text \<open>The f-string of lines 76 to 88, before \<^verbatim>\<open>textwrap.dedent\<close>.\<close>

definition preamble_text :: "string \<Rightarrow> string \<Rightarrow> string \<Rightarrow> string" where
  "preamble_text logo description repo =
     ''        '' @ logo @ '' '' @ description @ nl
     @ nl
     @ ''        ---'' @ nl
     @ nl
     @ ''        > _**NOTE**: Digests for multi-platform images may differ from Docker'' @ nl
     @ ''        Hub if manifests were converted to OCI format. Please pin to a'' @ nl
     @ ''        [platform-specific sha256 digest](https://hub.docker.com/_/'' @ repo
         @ ''/tags?name=latest)'' @ nl
     @ ''        instead._'' @ nl
     @ nl
     @ ''        ---'' @ nl
     @ nl
     @ ''        ''"

text \<open>\<^verbatim>\<open>preamble + info["full_description"]\<close>: only a \<^verbatim>\<open>str\<close> can be appended to a \<^verbatim>\<open>str\<close>.\<close>

fun str_add :: "string \<Rightarrow> json \<Rightarrow> error + string" where
  "str_add s (JStr t) = Inr (s @ t)"
| "str_add s _ = Inl TypeError"

text \<open>Lines 73 to 90: the description composed from the repository's page on Docker Hub.\<close>

definition description_of :: "pylib \<Rightarrow> string \<Rightarrow> string option \<Rightarrow> response \<Rightarrow> error + string" where
  "description_of L repo logo r =
     (case raise_for_status r of
        Inl e \<Rightarrow> Inl e
      | Inr _ \<Rightarrow>
     (case response_json r of
        Inl e \<Rightarrow> Inl e
      | Inr info \<Rightarrow>
     (case py_getitem info ''description'' of
        Inl e \<Rightarrow> Inl e
      | Inr short \<Rightarrow>
     (let preamble =
            dedent L (preamble_text (case logo of None \<Rightarrow> [] | Some l \<Rightarrow> l)
                        (py_format L short) repo)
      in case py_getitem info ''full_description'' of
           Inl e \<Rightarrow> Inl e
         | Inr full \<Rightarrow> str_add preamble full))))"

text \<open>Lines 62 to 90: the logo probe and the composition of the description.\<close>

definition compose_description ::
  "pylib \<Rightarrow> string \<Rightarrow> world \<Rightarrow> (error + string) \<times> world" where
  "compose_description L repo w =
     (let logo_url = ''https://hub.docker.com/api/media/repos_logo/v1/library%2F'' @ repo in
      case docker_get L logo_url w of
        (Inl e, w1) \<Rightarrow> (Inl e, w1)
      | (Inr r, w1) \<Rightarrow>
          (let logo = (if is_success r \<or> is_redirect r
                       then Some (''<img src='' @ dq @ logo_url @ dq @ '' height='' @ dq @ ''34'' @ dq @ ''/>'')
                       else None)
           in case docker_get L (''namespaces/library/repositories/'' @ repo) w1 of
                (Inl e, w2) \<Rightarrow> (Inl e, w2)
              | (Inr r', w2) \<Rightarrow> (description_of L repo logo r', w2)))"

text \<open>The requests of lines 99 to 108 and of lines 115 to 120.\<close>

definition create_request :: "string \<Rightarrow> string \<Rightarrow> http_request" where
  "create_request repo description =
     \<lparr>req_method = ''POST'',
      req_url = ''repository'',
      req_params = [],
      req_json = Some (JObj [(''namespace'', JStr ''lib''),
                             (''repository'', JStr repo),
                             (''description'', JStr description),
                             (''visibility'', JStr ''public''),
                             (''repo_kind'', JStr ''image'')])\<rparr>"

definition update_request :: "string \<Rightarrow> string \<Rightarrow> http_request" where
  "update_request repo description =
     \<lparr>req_method = ''PUT'',
      req_url = ''repository/lib/'' @ repo,
      req_params = [],
      req_json = Some (JObj [(''description'', JStr description)])\<rparr>"

text \<open>A request whose response is only checked with \<^verbatim>\<open>raise_for_status\<close>.\<close>

definition quay_checked :: "http_request \<Rightarrow> world \<Rightarrow> (error + unit) \<times> world" where
  "quay_checked rq w =
     (case quay_send rq w of
        (Inl e, w1) \<Rightarrow> (Inl e, w1)
      | (Inr r, w1) \<Rightarrow>
          (case raise_for_status r of Inl e \<Rightarrow> (Inl e, w1) | Inr _ \<Rightarrow> (Inr (), w1)))"

text \<open>
  Lines 93 to 121. The \<^verbatim>\<open>try\<close> block ends in a response or in an exception; the
  \<^verbatim>\<open>except\<close> clause takes an \<^verbatim>\<open>HTTPStatusError\<close> only, re-raises it unless its response
  is a 404, and creates the repository otherwise.
\<close>

definition ensure_description :: "string \<Rightarrow> string \<Rightarrow> world \<Rightarrow> (error + unit) \<times> world" where
  "ensure_description repo description w =
     (case quay_send (GET (''repository/lib/'' @ repo)) w of (fetched, w1) \<Rightarrow>
        (case (case fetched of Inl e \<Rightarrow> Inl e | Inr r \<Rightarrow> raise_for_status r) of
           Inl (HTTPStatusError resp) \<Rightarrow>
             if status_code resp \<noteq> 404 then (Inl (HTTPStatusError resp), w1)
             else quay_checked (create_request repo description) w1
         | Inl e \<Rightarrow> (Inl e, w1)
         | Inr r \<Rightarrow>
             (case response_json r of
                Inl e \<Rightarrow> (Inl e, w1)
              | Inr j \<Rightarrow>
                  (case py_getitem j ''description'' of
                     Inl e \<Rightarrow> (Inl e, w1)
                   | Inr stored \<Rightarrow>
                       if stored = JStr description then (Inr (), w1)
                       else quay_checked (update_request repo description) w1))))"

definition ensure_quay_repo :: "pylib \<Rightarrow> string \<Rightarrow> world \<Rightarrow> (error + unit) \<times> world" where
  "ensure_quay_repo L repo w =
     (case compose_description L repo w of
        (Inl e, w1) \<Rightarrow> (Inl e, w1)
      | (Inr description, w1) \<Rightarrow> ensure_description repo description w1)"

subsection \<open>Listing the tags of a repository on Docker Hub\<close>

text \<open>
  The inner \<^verbatim>\<open>for\<close> loop of \<^verbatim>\<open>get_tags_docker\<close>, lines 131 and 132. Python evaluates
  the right-hand side of the assignment before the key.
\<close>

fun docker_results :: "pylib \<Rightarrow> json list \<Rightarrow> tags \<Rightarrow> error + tags" where
  "docker_results L [] tags = Inr tags"
| "docker_results L (result # rest) tags =
     (case py_getitem result ''last_updated'' of
        Inl e \<Rightarrow> Inl e
      | Inr last_updated \<Rightarrow>
     (case fromisoformat L last_updated of
        Inl e \<Rightarrow> Inl e
      | Inr d \<Rightarrow>
     (case py_getitem result ''name'' of
        Inl e \<Rightarrow> Inl e
      | Inr name \<Rightarrow>
     (case dict_key name of
        Inl e \<Rightarrow> Inl e
      | Inr k \<Rightarrow> docker_results L rest (AList.update k d tags)))))"

text \<open>
  Lines 129 to 133, one pass of the \<^verbatim>\<open>while\<close> loop after the response has arrived:
  the tags so far extended by the page, and the page's \<^verbatim>\<open>next\<close> value.
\<close>

definition docker_page :: "pylib \<Rightarrow> response \<Rightarrow> tags \<Rightarrow> error + tags \<times> json" where
  "docker_page L r tags =
     (case raise_for_status r of
        Inl e \<Rightarrow> Inl e
      | Inr _ \<Rightarrow>
     (case response_json r of
        Inl e \<Rightarrow> Inl e
      | Inr j \<Rightarrow>
     (case py_getitem j ''results'' of
        Inl e \<Rightarrow> Inl e
      | Inr results \<Rightarrow>
     (case py_iter results of
        Inl e \<Rightarrow> Inl e
      | Inr rs \<Rightarrow>
     (case docker_results L rs tags of
        Inl e \<Rightarrow> Inl e
      | Inr tags' \<Rightarrow>
     (case py_getitem j ''next'' of
        Inl e \<Rightarrow> Inl e
      | Inr url \<Rightarrow> Inr (tags', url)))))))"

text \<open>
  The \<^verbatim>\<open>while url:\<close> loop of lines 127 to 133, entered with a non-empty \<open>url\<close>. A \<^verbatim>\<open>next\<close> value that is true
  but not a string is refused by the HTTP client with \<^verbatim>\<open>TypeError\<close>.
\<close>

partial_function (option) get_tags_docker_loop ::
  "pylib \<Rightarrow> string \<Rightarrow> tags \<Rightarrow> world \<Rightarrow> ((error + tags) \<times> world) option" where
  "get_tags_docker_loop L url tags w =
     (case docker_get L url w of
        (Inl e, w1) \<Rightarrow> Some (Inl e, w1)
      | (Inr r, w1) \<Rightarrow>
          (case docker_page L r tags of
             Inl e \<Rightarrow> Some (Inl e, w1)
           | Inr (tags', next) \<Rightarrow>
               if \<not> truthy next then Some (Inr tags', w1)
               else (case next of
                       JStr url' \<Rightarrow> get_tags_docker_loop L url' tags' w1
                     | _ \<Rightarrow> Some (Inl TypeError, w1))))"

definition get_tags_docker :: "pylib \<Rightarrow> string \<Rightarrow> world \<Rightarrow> ((error + tags) \<times> world) option" where
  "get_tags_docker L repo w =
     get_tags_docker_loop L (''namespaces/library/repositories/'' @ repo @ ''/tags?page_size=100'') [] w"

subsection \<open>Listing the tags of a repository on Quay\<close>

text \<open>\<^verbatim>\<open>d.replace(tzinfo=UTC)\<close> when \<^verbatim>\<open>d.tzinfo is None\<close>: the wall clock is read as UTC.\<close>

fun assume_utc :: "datetime \<Rightarrow> datetime" where
  "assume_utc (Naive t) = Aware t"
| "assume_utc (Aware t) = Aware t"

text \<open>The inner \<^verbatim>\<open>for\<close> loop of \<^verbatim>\<open>get_tags_quay\<close>, lines 152 to 156.\<close>

fun quay_tags :: "pylib \<Rightarrow> json list \<Rightarrow> tags \<Rightarrow> error + tags" where
  "quay_tags L [] tags = Inr tags"
| "quay_tags L (tag # rest) tags =
     (case py_getitem tag ''last_modified'' of
        Inl e \<Rightarrow> Inl e
      | Inr last_modified \<Rightarrow>
     (case parsedate_to_datetime L last_modified of
        Inl e \<Rightarrow> Inl e
      | Inr d \<Rightarrow>
     (case py_getitem tag ''name'' of
        Inl e \<Rightarrow> Inl e
      | Inr name \<Rightarrow>
     (case dict_key name of
        Inl e \<Rightarrow> Inl e
      | Inr k \<Rightarrow> quay_tags L rest (AList.update k (assume_utc d) tags)))))"

text \<open>
  Lines 150 to 157, one pass of the \<^verbatim>\<open>while\<close> loop after the response has arrived:
  the tags so far extended by the page, and the page's \<^verbatim>\<open>has_additional\<close> value.
\<close>

definition quay_page :: "pylib \<Rightarrow> response \<Rightarrow> tags \<Rightarrow> error + tags \<times> json" where
  "quay_page L r tags =
     (case raise_for_status r of
        Inl e \<Rightarrow> Inl e
      | Inr _ \<Rightarrow>
     (case response_json r of
        Inl e \<Rightarrow> Inl e
      | Inr j \<Rightarrow>
     (case py_getitem j ''tags'' of
        Inl e \<Rightarrow> Inl e
      | Inr ts \<Rightarrow>
     (case py_iter ts of
        Inl e \<Rightarrow> Inl e
      | Inr ts' \<Rightarrow>
     (case quay_tags L ts' tags of
        Inl e \<Rightarrow> Inl e
      | Inr tags' \<Rightarrow>
     (case py_getitem j ''has_additional'' of
        Inl e \<Rightarrow> Inl e
      | Inr has_additional \<Rightarrow> Inr (tags', has_additional)))))))"

text \<open>The request of lines 141 to 149.\<close>

definition quay_tag_request :: "string \<Rightarrow> int \<Rightarrow> http_request" where
  "quay_tag_request repo page =
     \<lparr>req_method = ''GET'',
      req_url = ''repository/lib/'' @ repo @ ''/tag/'',
      req_params = [(''page'', JInt page), (''limit'', JInt 100), (''onlyActiveTags'', JBool True)],
      req_json = None\<rparr>"

text \<open>
  The \<^verbatim>\<open>while page:\<close> loop of lines 140 to 160. The page number starts at 1 and only grows, so the loop
  ends only through \<^verbatim>\<open>page = None\<close>.
\<close>

partial_function (option) get_tags_quay_loop ::
  "pylib \<Rightarrow> string \<Rightarrow> int \<Rightarrow> tags \<Rightarrow> world \<Rightarrow> ((error + tags) \<times> world) option" where
  "get_tags_quay_loop L repo page tags w =
     (case quay_send (quay_tag_request repo page) w of
        (Inl e, w1) \<Rightarrow> Some (Inl e, w1)
      | (Inr r, w1) \<Rightarrow>
          (case quay_page L r tags of
             Inl e \<Rightarrow> Some (Inl e, w1)
           | Inr (tags', has_additional) \<Rightarrow>
               if truthy has_additional then get_tags_quay_loop L repo (page + 1) tags' w1
               else Some (Inr tags', w1)))"

definition get_tags_quay :: "pylib \<Rightarrow> string \<Rightarrow> world \<Rightarrow> ((error + tags) \<times> world) option" where
  "get_tags_quay L repo w = get_tags_quay_loop L repo 1 [] w"

subsection \<open>The sync decision engine\<close>

text \<open>\<^verbatim>\<open>a >= b\<close> on two datetimes.\<close>

fun datetime_ge :: "datetime \<Rightarrow> datetime \<Rightarrow> error + bool" where
  "datetime_ge (Aware a) (Aware b) = Inr (a \<ge> b)"
| "datetime_ge (Naive a) (Naive b) = Inr (a \<ge> b)"
| "datetime_ge (Aware a) (Naive b) = Inl TypeError"
| "datetime_ge (Naive a) (Aware b) = Inl TypeError"

text \<open>
  The host the program runs on: the lines it has printed and the argument vectors it
  has passed to \<^verbatim>\<open>subprocess.run\<close>, in order. The external tool is a parameter: given
  an argument vector it exits with a return code, or cannot be started at all (\<open>None\<close>,
  an \<^verbatim>\<open>OSError\<close>).
\<close>

record host =
  stdout :: "string list"
  runs :: "string list list"

type_synonym tool = "string list \<Rightarrow> int option"

fun join :: "string \<Rightarrow> string list \<Rightarrow> string" where
  "join sep [] = []"
| "join sep [w] = w"
| "join sep (w # ws) = w @ sep @ join sep ws"

text \<open>\<^verbatim>\<open>print(*ws)\<close> writes one line: the words separated by a space.\<close>

definition print :: "string list \<Rightarrow> host \<Rightarrow> host" where
  "print ws h = h\<lparr>stdout := stdout h @ [join '' '' ws]\<rparr>"

text \<open>\<^verbatim>\<open>subprocess.run(args=..., check=True)\<close>\<close>

definition subprocess_run_check :: "tool \<Rightarrow> string list \<Rightarrow> host \<Rightarrow> (error + unit) \<times> host" where
  "subprocess_run_check skopeo args h =
     (let h' = h\<lparr>runs := runs h @ [args]\<rparr> in
      case skopeo args of
        None \<Rightarrow> (Inl OSError, h')
      | Some rc \<Rightarrow> (if rc \<noteq> 0 then Inl (CalledProcessError rc args) else Inr (), h'))"

definition skopeo_args :: "string \<Rightarrow> string \<Rightarrow> string \<Rightarrow> string list" where
  "skopeo_args auth_file repo tag =
     [''skopeo'', ''sync'',
      ''--src=docker'', ''--dest=docker'',
      ''--authfile='' @ auth_file,
      ''--all'',
      ''docker.io/library/'' @ repo @ '':'' @ tag,
      ''quay.io/lib'',
      ''--format=oci'']"

text \<open>The condition of line 172: \<^verbatim>\<open>tag in tags_quay and tags_quay[tag] >= docker_modified\<close>.\<close>

definition in_sync :: "tags \<Rightarrow> string \<Rightarrow> datetime \<Rightarrow> error + bool" where
  "in_sync tags_quay tag docker_modified =
     (case map_of tags_quay tag of
        None \<Rightarrow> Inr False
      | Some quay_modified \<Rightarrow> datetime_ge quay_modified docker_modified)"

text \<open>The \<^verbatim>\<open>for\<close> loop of \<^verbatim>\<open>sync\<close> over \<^verbatim>\<open>tags_docker.items()\<close>, lines 171 to 192.\<close>

fun sync_loop :: "tool \<Rightarrow> string \<Rightarrow> string \<Rightarrow> tags \<Rightarrow> tags \<Rightarrow> host \<Rightarrow> (error + unit) \<times> host" where
  "sync_loop skopeo repo auth_file tags_quay [] h = (Inr (), h)"
| "sync_loop skopeo repo auth_file tags_quay ((tag, docker_modified) # items) h =
     (case in_sync tags_quay tag docker_modified of
        Inl e \<Rightarrow> (Inl e, h)
      | Inr True \<Rightarrow> sync_loop skopeo repo auth_file tags_quay items h
      | Inr False \<Rightarrow>
          (case subprocess_run_check skopeo (skopeo_args auth_file repo tag) h of
             (Inl e, h') \<Rightarrow> (Inl e, h')
           | (Inr _, h') \<Rightarrow> sync_loop skopeo repo auth_file tags_quay items h'))"

text \<open>
  \<^verbatim>\<open>sync\<close>, lines 164 to 192. The three reads run concurrently under \<^verbatim>\<open>asyncio.gather\<close>; their joint
  outcome is the parameter \<open>gathered\<close>: the first exception raised, or the three results.
\<close>

definition sync ::
  "tool \<Rightarrow> string \<Rightarrow> string \<Rightarrow> (error + unit \<times> tags \<times> tags) \<Rightarrow> host \<Rightarrow> (error + unit) \<times> host" where
  "sync skopeo repo auth_file gathered h =
     (let h1 = print [''Synchronising'', repo] h in
      case gathered of
        Inl e \<Rightarrow> (Inl e, h1)
      | Inr (_, tags_docker, tags_quay) \<Rightarrow>
          sync_loop skopeo repo auth_file tags_quay tags_docker h1)"

subsection \<open>Notions used to state the properties\<close>

text \<open>\<^verbatim>\<open>d.tzinfo is not None\<close>\<close>

fun is_aware :: "datetime \<Rightarrow> bool" where
  "is_aware (Aware t) = True"
| "is_aware (Naive t) = False"

text \<open>
  In the words of the specification: a timestamp is strictly older than another.
\<close>

fun older :: "datetime \<Rightarrow> datetime \<Rightarrow> bool" where
  "older (Aware a) (Aware b) \<longleftrightarrow> a < b"
| "older (Naive a) (Naive b) \<longleftrightarrow> a < b"
| "older (Aware a) (Naive b) \<longleftrightarrow> False"
| "older (Naive a) (Aware b) \<longleftrightarrow> False"

text \<open>
  The argument vectors passed to \<^verbatim>\<open>subprocess.run\<close> during a call of \<^verbatim>\<open>sync\<close> that has
  received the two tag maps: the copies it has invoked, in order.
\<close>

definition invoked :: "tool \<Rightarrow> string \<Rightarrow> string \<Rightarrow> tags \<Rightarrow> tags \<Rightarrow> host \<Rightarrow> string list list" where
  "invoked skopeo repo auth_file tags_docker tags_quay h =
     drop (length (runs h))
       (runs (snd (sync skopeo repo auth_file (Inr ((), tags_docker, tags_quay)) h)))"

text \<open>
  The loop passes an item without raising: the tag is in sync, or it is copied and the
  tool exits with 0.
\<close>

definition passes :: "tool \<Rightarrow> string \<Rightarrow> string \<Rightarrow> tags \<Rightarrow> string \<times> datetime \<Rightarrow> bool" where
  "passes skopeo repo auth_file tags_quay item \<longleftrightarrow>
     in_sync tags_quay (fst item) (snd item) = Inr True \<or>
     (in_sync tags_quay (fst item) (snd item) = Inr False \<and>
      skopeo (skopeo_args auth_file repo (fst item)) = Some 0)"

text \<open>The tags the loop copies when it passes every item.\<close>

definition copied :: "tags \<Rightarrow> tags \<Rightarrow> string list" where
  "copied tags_quay items =
     map fst (filter (\<lambda>item. in_sync tags_quay (fst item) (snd item) = Inr False) items)"

text \<open>
  A 429 response whose \<^verbatim>\<open>Retry-After\<close> header the client can read as an integer that
  converts to a float, and the value of that integer.
\<close>

definition rate_limited :: "pylib \<Rightarrow> response \<Rightarrow> bool" where
  "rate_limited L r \<longleftrightarrow>
     status_code r = 429 \<and>
     (case headers r ''Retry-After'' of
        None \<Rightarrow> False
      | Some v \<Rightarrow>
          (case py_int L v of
             None \<Rightarrow> False
           | Some n \<Rightarrow> float_of_int n \<noteq> None))"

definition retry_after :: "pylib \<Rightarrow> response \<Rightarrow> real" where
  "retry_after L r =
     (case headers r ''Retry-After'' of
        None \<Rightarrow> 0
      | Some v \<Rightarrow> (case py_int L v of None \<Rightarrow> 0 | Some n \<Rightarrow> of_int n))"

text \<open>The outcome of a write to Quay: the reply, checked with \<^verbatim>\<open>raise_for_status\<close>.\<close>

definition checked :: "reply \<Rightarrow> error + unit" where
  "checked answer =
     (case answer of
        Inl e \<Rightarrow> Inl e
      | Inr r \<Rightarrow> if is_success r then Inr () else Inl (HTTPStatusError r))"

subsection \<open>Concrete inputs\<close>

text \<open>
  The scenario of the specification: the source has \<^verbatim>\<open>latest\<close> at time 100 and
  \<^verbatim>\<open>1.0\<close> at time 50, the destination has \<^verbatim>\<open>1.0\<close> at time 50.
\<close>

definition source_tags :: tags where
  "source_tags = [(''latest'', Aware 100), (''1.0'', Aware 50)]"

definition dest_tags :: tags where
  "dest_tags = [(''1.0'', Aware 50)]"

definition fresh_host :: host where
  "fresh_host = \<lparr>stdout = [], runs = []\<rparr>"

definition tool_ok :: tool where
  "tool_ok args = Some 0"

definition tool_failing :: tool where
  "tool_failing args = Some 1"

subsection \<open>A stand-in library\<close>

text \<open>
  For concrete evaluations: a library that reads decimal numbers with an optional
  minus sign, and timestamps written as a number of microseconds, under an interpreter
  that allows 999 nested calls of the client.
\<close>

fun digits :: "nat \<Rightarrow> string \<Rightarrow> nat option" where
  "digits n [] = Some n"
| "digits n (c # cs) =
     (if 48 \<le> (of_char c :: nat) \<and> (of_char c :: nat) \<le> 57
      then digits (10 * n + (of_char c - 48)) cs else None)"

definition decimal :: "string \<Rightarrow> int option" where
  "decimal s =
     (case s of
        [] \<Rightarrow> None
      | c # cs \<Rightarrow>
          if c = CHR ''-''
          then (if cs = [] then None else map_option (\<lambda>k. - int k) (digits 0 cs))
          else map_option int (digits 0 s))"

fun micros :: "(int \<Rightarrow> datetime) \<Rightarrow> json \<Rightarrow> error + datetime" where
  "micros mk (JStr s) = (case decimal s of None \<Rightarrow> Inl ValueError | Some n \<Rightarrow> Inr (mk n))"
| "micros mk _ = Inl TypeError"

definition plain_lib :: pylib where
  "plain_lib =
     \<lparr>py_int = decimal,
      fromisoformat = micros Aware,
      parsedate_to_datetime = micros Naive,
      dedent = (\<lambda>s. s),
      py_str = (\<lambda>v. []),
      spare_depth = 998\<rparr>"

definition plain_response :: "nat \<Rightarrow> response" where
  "plain_response code = \<lparr>status_code = code, headers = Map.empty, body_json = None\<rparr>"

definition too_many_requests :: "string \<Rightarrow> response" where
  "too_many_requests v =
     \<lparr>status_code = 429, headers = [''Retry-After'' \<mapsto> v], body_json = None\<rparr>"

definition hangs_up :: "reply stream" where
  "hangs_up = sconst (Inl TransportError)"

definition world_at :: "real \<Rightarrow> reply list \<Rightarrow> reply list \<Rightarrow> world" where
  "world_at t from_docker from_quay =
     \<lparr>clock = t, sleeps = [],
      docker_in = from_docker @- hangs_up, docker_out = [],
      quay_in = from_quay @- hangs_up, quay_out = []\<rparr>"

text \<open>A repository page of Docker Hub and a repository record of Quay.\<close>

definition hub_info :: "string \<Rightarrow> string \<Rightarrow> response" where
  "hub_info short full =
     \<lparr>status_code = 200, headers = Map.empty,
      body_json = Some (JObj [(''description'', JStr short), (''full_description'', JStr full)])\<rparr>"

definition quay_repo :: "string \<Rightarrow> response" where
  "quay_repo description =
     \<lparr>status_code = 200, headers = Map.empty,
      body_json = Some (JObj [(''description'', JStr description)])\<rparr>"

definition nginx_description :: string where
  "nginx_description = preamble_text [] ''web server'' ''nginx'' @ ''# nginx''"

definition nginx_world :: "reply list \<Rightarrow> world" where
  "nginx_world from_quay =
     world_at 0 [Inr (plain_response 404), Inr (hub_info ''web server'' ''# nginx'')] from_quay"

definition nginx_composed :: "reply list \<Rightarrow> world" where
  "nginx_composed from_quay =
     \<lparr>clock = 0, sleeps = [], docker_in = hangs_up,
      docker_out = [GET ''https://hub.docker.com/api/media/repos_logo/v1/library%2Fnginx'',
                    GET ''namespaces/library/repositories/nginx''],
      quay_in = from_quay @- hangs_up, quay_out = []\<rparr>"

subsection \<open>Pages of tags\<close>

text \<open>
  A tag map filled from a list of items in order: a later item of the same name
  replaces the timestamp of an earlier one.
\<close>

definition collect :: "tags \<Rightarrow> tags \<Rightarrow> tags" where
  "collect items tags = fold (\<lambda>item. AList.update (fst item) (snd item)) items tags"

text \<open>
  An element of \<^verbatim>\<open>results\<close> that carries a tag name and a timestamp the library can
  read, and a response that is a page of such elements with a \<^verbatim>\<open>next\<close> value.
\<close>

definition docker_item :: "pylib \<Rightarrow> json \<Rightarrow> string \<times> datetime \<Rightarrow> bool" where
  "docker_item L result item \<longleftrightarrow>
     (case py_getitem result ''last_updated'' of
        Inl e \<Rightarrow> False
      | Inr last_updated \<Rightarrow> fromisoformat L last_updated = Inr (snd item))
     \<and> py_getitem result ''name'' = Inr (JStr (fst item))"

definition docker_tag_page :: "pylib \<Rightarrow> response \<Rightarrow> tags \<Rightarrow> json \<Rightarrow> bool" where
  "docker_tag_page L r items next \<longleftrightarrow>
     is_success r \<and>
     (case body_json r of
        None \<Rightarrow> False
      | Some j \<Rightarrow>
          (case py_getitem j ''results'' of
             Inl e \<Rightarrow> False
           | Inr v \<Rightarrow>
               (case py_iter v of
                  Inl e \<Rightarrow> False
                | Inr results \<Rightarrow> list_all2 (docker_item L) results items))
          \<and> py_getitem j ''next'' = Inr next)"

text \<open>
  A page of a chain: the response, the items it lists and its \<^verbatim>\<open>next\<close> value (on Quay,
  its \<^verbatim>\<open>has_additional\<close> value).
\<close>

type_synonym listed_page = "response \<times> tags \<times> json"

abbreviation page_response :: "listed_page \<Rightarrow> response" where
  "page_response p \<equiv> fst p"

abbreviation page_items :: "listed_page \<Rightarrow> tags" where
  "page_items p \<equiv> fst (snd p)"

abbreviation page_next :: "listed_page \<Rightarrow> json" where
  "page_next p \<equiv> snd (snd p)"

text \<open>
  The \<^verbatim>\<open>next\<close> values of a chain of pages: each but the last is a non-empty URL, the
  last is a false value such as \<^verbatim>\<open>null\<close>.
\<close>

fun linked :: "json list \<Rightarrow> bool" where
  "linked [] \<longleftrightarrow> False"
| "linked [next] \<longleftrightarrow> \<not> truthy next"
| "linked (next # after # nexts) \<longleftrightarrow>
     (case next of JStr url \<Rightarrow> url \<noteq> [] | _ \<Rightarrow> False) \<and> linked (after # nexts)"

fun url_of :: "json \<Rightarrow> string" where
  "url_of (JStr url) = url"
| "url_of _ = []"

definition hub_tag :: "string \<Rightarrow> string \<Rightarrow> json" where
  "hub_tag name last_updated = JObj [(''name'', JStr name), (''last_updated'', JStr last_updated)]"

definition hub_tags :: "json list \<Rightarrow> json \<Rightarrow> response" where
  "hub_tags results next =
     \<lparr>status_code = 200, headers = Map.empty,
      body_json = Some (JObj [(''results'', JArr results), (''next'', next)])\<rparr>"

definition two_pages :: "listed_page list" where
  "two_pages =
     [(hub_tags [hub_tag ''latest'' ''100'', hub_tag ''1.0'' ''50''] (JStr ''page2''),
       [(''latest'', Aware 100), (''1.0'', Aware 50)],
       JStr ''page2''),
      (hub_tags [hub_tag ''latest'' ''120''] JNull,
       [(''latest'', Aware 120)],
       JNull)]"

definition hub_tags_without_next :: "json list \<Rightarrow> response" where
  "hub_tags_without_next results =
     \<lparr>status_code = 200, headers = Map.empty,
      body_json = Some (JObj [(''results'', JArr results)])\<rparr>"

text \<open>
  An element of \<^verbatim>\<open>tags\<close> on Quay that carries a tag name and a timestamp the library can
  read, and a response that is a page of such elements with a \<^verbatim>\<open>has_additional\<close> value.
\<close>

definition quay_item :: "pylib \<Rightarrow> json \<Rightarrow> string \<times> datetime \<Rightarrow> bool" where
  "quay_item L tag item \<longleftrightarrow>
     (case py_getitem tag ''last_modified'' of
        Inl e \<Rightarrow> False
      | Inr last_modified \<Rightarrow> parsedate_to_datetime L last_modified = Inr (snd item))
     \<and> py_getitem tag ''name'' = Inr (JStr (fst item))"

definition quay_tag_page :: "pylib \<Rightarrow> response \<Rightarrow> tags \<Rightarrow> json \<Rightarrow> bool" where
  "quay_tag_page L r items has_additional \<longleftrightarrow>
     is_success r \<and>
     (case body_json r of
        None \<Rightarrow> False
      | Some j \<Rightarrow>
          (case py_getitem j ''tags'' of
             Inl e \<Rightarrow> False
           | Inr v \<Rightarrow>
               (case py_iter v of
                  Inl e \<Rightarrow> False
                | Inr ts \<Rightarrow> list_all2 (quay_item L) ts items))
          \<and> py_getitem j ''has_additional'' = Inr has_additional)"

text \<open>
  The \<^verbatim>\<open>has_additional\<close> values of a run of pages: true on each page but the last,
  false on the last.
\<close>

fun more_until_last :: "json list \<Rightarrow> bool" where
  "more_until_last [] \<longleftrightarrow> False"
| "more_until_last [flag] \<longleftrightarrow> \<not> truthy flag"
| "more_until_last (flag # after # flags) \<longleftrightarrow> truthy flag \<and> more_until_last (after # flags)"

text \<open>The items of a page with the timestamps as the listing stores them.\<close>

definition in_utc :: "tags \<Rightarrow> tags" where
  "in_utc items = map (\<lambda>item. (fst item, assume_utc (snd item))) items"

definition quay_tag :: "string \<Rightarrow> string \<Rightarrow> json" where
  "quay_tag name last_modified = JObj [(''name'', JStr name), (''last_modified'', JStr last_modified)]"

definition quay_tags_page :: "json list \<Rightarrow> bool \<Rightarrow> response" where
  "quay_tags_page ts has_additional =
     \<lparr>status_code = 200, headers = Map.empty,
      body_json = Some (JObj [(''tags'', JArr ts), (''has_additional'', JBool has_additional)])\<rparr>"

definition two_quay_pages :: "listed_page list" where
  "two_quay_pages =
     [(quay_tags_page [quay_tag ''latest'' ''100''] True, [(''latest'', Naive 100)], JBool True),
      (quay_tags_page [quay_tag ''1.0'' ''50''] False, [(''1.0'', Naive 50)], JBool False)]"

section \<open>Verified properties\<close>

subsection \<open>Auxiliary facts about the copy loop\<close>

lemma sync_loop_append:
  "\<forall>item\<in>set pre. passes skopeo repo auth_file tags_quay item \<Longrightarrow>
   sync_loop skopeo repo auth_file tags_quay (pre @ post) h =
     sync_loop skopeo repo auth_file tags_quay post
       (h\<lparr>runs := runs h @ map (skopeo_args auth_file repo) (copied tags_quay pre)\<rparr>)"
proof (induction pre arbitrary: h)
  case Nil
  then show ?case by (simp add: copied_def)
next
  case (Cons item pre)
  obtain tag d where item: "item = (tag, d)" by (cases item)
  from Cons.prems have ok: "passes skopeo repo auth_file tags_quay (tag, d)"
    and rest: "\<forall>i\<in>set pre. passes skopeo repo auth_file tags_quay i"
    by (simp_all add: item)
  show ?case
  proof (cases "in_sync tags_quay tag d = Inr True")
    case True
    then show ?thesis using Cons.IH[OF rest] by (simp add: item copied_def)
  next
    case False
    with ok have f: "in_sync tags_quay tag d = Inr False"
      and s: "skopeo (skopeo_args auth_file repo tag) = Some 0"
      by (simp_all add: passes_def)
    show ?thesis using Cons.IH[OF rest] f s
      by (simp add: item copied_def subprocess_run_check_def)
  qed
qed

lemma sync_loop_copies:
  "\<exists>ts. runs (snd (sync_loop skopeo repo auth_file tags_quay items h)) =
          runs h @ map (skopeo_args auth_file repo) ts
        \<and> (\<forall>t\<in>set ts. \<exists>d. (t, d) \<in> set items \<and> in_sync tags_quay t d = Inr False)"
proof (induction items arbitrary: h)
  case Nil
  show ?case by (rule exI[of _ "[]"]) simp
next
  case (Cons item items)
  obtain tag d where item: "item = (tag, d)" by (cases item)
  show ?case
  proof (cases "in_sync tags_quay tag d")
    case (Inl e)
    then show ?thesis by (intro exI[of _ "[]"]) (simp add: item)
  next
    case (Inr b)
    show ?thesis
    proof (cases b)
      case True
      from Cons.IH[of h] obtain ts where
        "runs (snd (sync_loop skopeo repo auth_file tags_quay items h)) =
          runs h @ map (skopeo_args auth_file repo) ts"
        "\<forall>t\<in>set ts. \<exists>d. (t, d) \<in> set items \<and> in_sync tags_quay t d = Inr False"
        by blast
      then show ?thesis using Inr True by (intro exI[of _ ts]) (auto simp: item)
    next
      case False
      let ?h' = "h\<lparr>runs := runs h @ [skopeo_args auth_file repo tag]\<rparr>"
      show ?thesis
      proof (cases "skopeo (skopeo_args auth_file repo tag) = Some 0")
        case True
        from Cons.IH[of ?h'] obtain ts where
          "runs (snd (sync_loop skopeo repo auth_file tags_quay items ?h')) =
            runs ?h' @ map (skopeo_args auth_file repo) ts"
          "\<forall>t\<in>set ts. \<exists>d. (t, d) \<in> set items \<and> in_sync tags_quay t d = Inr False"
          by blast
        then show ?thesis using Inr False True
          by (intro exI[of _ "tag # ts"]) (auto simp: item subprocess_run_check_def)
      next
        case F: False
        then show ?thesis using Inr False
          by (cases "skopeo (skopeo_args auth_file repo tag)")
             (auto simp: item subprocess_run_check_def Let_def intro!: exI[of _ "[tag]"])
      qed
    qed
  qed
qed

lemma sync_loop_runs:
  "\<exists>ts. runs (snd (sync_loop skopeo repo auth_file tags_quay items h)) =
          runs h @ map (skopeo_args auth_file repo) ts \<and> set ts \<subseteq> fst ` set items"
proof -
  from sync_loop_copies[of skopeo repo auth_file tags_quay items h] obtain ts where
    "runs (snd (sync_loop skopeo repo auth_file tags_quay items h)) =
          runs h @ map (skopeo_args auth_file repo) ts"
    "\<forall>t\<in>set ts. \<exists>d. (t, d) \<in> set items \<and> in_sync tags_quay t d = Inr False"
    by blast
  then show ?thesis by (intro exI[of _ ts]) force
qed

lemma in_sync_False_iff:
  "in_sync tags_quay tag d = Inr False \<longleftrightarrow>
     map_of tags_quay tag = None \<or> (\<exists>q. map_of tags_quay tag = Some q \<and> older q d)"
proof (cases "map_of tags_quay tag")
  case None
  then show ?thesis by (simp add: in_sync_def)
next
  case (Some q)
  then show ?thesis by (cases q; cases d) (auto simp: in_sync_def)
qed

lemma skopeo_args_inject:
  "skopeo_args auth_file repo tag = skopeo_args auth_file repo tag' \<longleftrightarrow> tag = tag'"
  by (simp add: skopeo_args_def)

lemma sync_loop_reaches:
  assumes "\<forall>item\<in>set pre. passes skopeo repo auth_file tags_quay item"
    and "in_sync tags_quay tag d = Inr False"
  shows "skopeo_args auth_file repo tag \<in>
           set (drop (length (runs h))
                  (runs (snd (sync_loop skopeo repo auth_file tags_quay (pre @ (tag, d) # post) h))))"
proof -
  let ?h1 = "h\<lparr>runs := runs h @ map (skopeo_args auth_file repo) (copied tags_quay pre)\<rparr>"
  let ?h2 = "?h1\<lparr>runs := runs ?h1 @ [skopeo_args auth_file repo tag]\<rparr>"
  have a: "sync_loop skopeo repo auth_file tags_quay (pre @ (tag, d) # post) h =
           sync_loop skopeo repo auth_file tags_quay ((tag, d) # post) ?h1"
    by (rule sync_loop_append[OF assms(1)])
  have "\<exists>more. runs (snd (sync_loop skopeo repo auth_file tags_quay ((tag, d) # post) ?h1)) =
          runs ?h2 @ more"
  proof (cases "skopeo (skopeo_args auth_file repo tag) = Some 0")
    case True
    from sync_loop_copies[of skopeo repo auth_file tags_quay post ?h2] obtain ts where
      "runs (snd (sync_loop skopeo repo auth_file tags_quay post ?h2)) =
         runs ?h2 @ map (skopeo_args auth_file repo) ts" by blast
    then show ?thesis using assms(2) True
      by (intro exI[of _ "map (skopeo_args auth_file repo) ts"])
         (simp add: subprocess_run_check_def)
  next
    case False
    then show ?thesis using assms(2)
      by (cases "skopeo (skopeo_args auth_file repo tag)")
         (auto simp: subprocess_run_check_def Let_def)
  qed
  then obtain more where
    "runs (snd (sync_loop skopeo repo auth_file tags_quay (pre @ (tag, d) # post) h)) =
       runs h @ map (skopeo_args auth_file repo) (copied tags_quay pre)
         @ [skopeo_args auth_file repo tag] @ more"
    using a by auto
  then show ?thesis by simp
qed

subsection \<open>The sync decision engine\<close>

text \<open>
  C1 (as amended). In every run of \<^verbatim>\<open>sync\<close>, whatever the tool does, a copy is invoked
  only for a tag of the source tag map that is absent from the destination tag map or
  whose destination timestamp is strictly older than its source timestamp (a dict holds
  each key once, so \<open>d\<close> below is the source timestamp of the tag); hence a tag whose
  destination timestamp is equal to or newer than its source timestamp is skipped.
  Conversely, a tag that is absent from the destination tag map or strictly older there
  has its copy invoked whenever the loop reaches it, that is, when every item before it
  was skipped or copied with exit code 0.
\<close>

theorem sync_copies_stale_tags:
  "(\<forall>tag. skopeo_args auth_file repo tag
             \<in> set (invoked skopeo repo auth_file tags_docker tags_quay h) \<longrightarrow>
          (\<exists>d. (tag, d) \<in> set tags_docker \<and>
               (map_of tags_quay tag = None \<or>
                (\<exists>q. map_of tags_quay tag = Some q \<and> older q d))))
   \<and> (\<forall>tag q. map_of tags_quay tag = Some q \<and>
                (\<forall>d. (tag, d) \<in> set tags_docker \<longrightarrow> datetime_ge q d = Inr True) \<longrightarrow>
          skopeo_args auth_file repo tag
             \<notin> set (invoked skopeo repo auth_file tags_docker tags_quay h))
   \<and> (\<forall>pre tag d post.
          tags_docker = pre @ (tag, d) # post \<and>
          (\<forall>item\<in>set pre. passes skopeo repo auth_file tags_quay item) \<and>
          (map_of tags_quay tag = None \<or>
           (\<exists>q. map_of tags_quay tag = Some q \<and> older q d)) \<longrightarrow>
          skopeo_args auth_file repo tag
             \<in> set (invoked skopeo repo auth_file tags_docker tags_quay h))"
proof -
  let ?h1 = "print [''Synchronising'', repo] h"
  have len: "length (runs ?h1) = length (runs h)" by (simp add: print_def)
  have inv: "invoked skopeo repo auth_file tags_docker tags_quay h =
             drop (length (runs ?h1))
               (runs (snd (sync_loop skopeo repo auth_file tags_quay tags_docker ?h1)))"
    by (simp add: invoked_def sync_def len)
  from sync_loop_copies[of skopeo repo auth_file tags_quay tags_docker ?h1] obtain ts where
    ts: "runs (snd (sync_loop skopeo repo auth_file tags_quay tags_docker ?h1)) =
           runs ?h1 @ map (skopeo_args auth_file repo) ts"
    and needed: "\<forall>t\<in>set ts. \<exists>d. (t, d) \<in> set tags_docker \<and> in_sync tags_quay t d = Inr False"
    by blast
  have inv_ts: "invoked skopeo repo auth_file tags_docker tags_quay h =
                map (skopeo_args auth_file repo) ts"
    by (simp add: inv ts)
  have only: "\<exists>d. (tag, d) \<in> set tags_docker \<and>
               (map_of tags_quay tag = None \<or>
                (\<exists>q. map_of tags_quay tag = Some q \<and> older q d))"
    if "skopeo_args auth_file repo tag
          \<in> set (invoked skopeo repo auth_file tags_docker tags_quay h)" for tag
  proof -
    from that obtain t where "t \<in> set ts"
      "skopeo_args auth_file repo tag = skopeo_args auth_file repo t"
      by (auto simp: inv_ts)
    then have "tag \<in> set ts" by (simp add: skopeo_args_inject)
    with needed obtain d where "(tag, d) \<in> set tags_docker" "in_sync tags_quay tag d = Inr False"
      by blast
    then show ?thesis by (auto simp: in_sync_False_iff)
  qed
  have skipped: "skopeo_args auth_file repo tag
             \<notin> set (invoked skopeo repo auth_file tags_docker tags_quay h)"
    if q: "map_of tags_quay tag = Some q"
      and ge: "\<forall>d. (tag, d) \<in> set tags_docker \<longrightarrow> datetime_ge q d = Inr True" for tag q
  proof
    assume "skopeo_args auth_file repo tag
             \<in> set (invoked skopeo repo auth_file tags_docker tags_quay h)"
    from only[OF this] q obtain d where d: "(tag, d) \<in> set tags_docker" "older q d" by auto
    from ge d(1) have "datetime_ge q d = Inr True" by blast
    with d(2) show False by (cases q; cases d) auto
  qed
  have reached: "skopeo_args auth_file repo tag
             \<in> set (invoked skopeo repo auth_file tags_docker tags_quay h)"
    if "tags_docker = pre @ (tag, d) # post"
      and "\<forall>item\<in>set pre. passes skopeo repo auth_file tags_quay item"
      and "map_of tags_quay tag = None \<or> (\<exists>q. map_of tags_quay tag = Some q \<and> older q d)"
    for pre tag d post
  proof -
    from that(3) have "in_sync tags_quay tag d = Inr False" by (simp add: in_sync_False_iff)
    from sync_loop_reaches[OF that(2) this, of ?h1 post] show ?thesis
      unfolding inv by (simp add: that(1))
  qed
  from only skipped reached show ?thesis by blast
qed

theorem sync_copies_stale_tags_witness:
  "skopeo_args ''/tmp/auth'' ''nginx'' ''latest''
     \<in> set (invoked tool_failing ''nginx'' ''/tmp/auth''
              [(''1.0'', Aware 50), (''latest'', Aware 100), (''2.0'', Aware 70)] dest_tags
              fresh_host)
   \<and> skopeo_args ''/tmp/auth'' ''nginx'' ''1.0''
     \<notin> set (invoked tool_failing ''nginx'' ''/tmp/auth''
              [(''1.0'', Aware 50), (''latest'', Aware 100), (''2.0'', Aware 70)] dest_tags
              fresh_host)"
proof
  note t = sync_copies_stale_tags[of "''/tmp/auth''" "''nginx''" tool_failing
      "[(''1.0'', Aware 50), (''latest'', Aware 100), (''2.0'', Aware 70)]" dest_tags fresh_host]
  have p: "\<forall>item\<in>set [(''1.0'', Aware 50)].
             passes tool_failing ''nginx'' ''/tmp/auth'' dest_tags item"
    by (simp add: passes_def in_sync_def dest_tags_def)
  have s: "map_of dest_tags ''latest'' = None \<or>
           (\<exists>q. map_of dest_tags ''latest'' = Some q \<and> older q (Aware 100))"
    by (simp add: dest_tags_def)
  from t[THEN conjunct2, THEN conjunct2, rule_format,
         of "[(''1.0'', Aware 50)]" "''latest''" "Aware 100" "[(''2.0'', Aware 70)]"] p s
  show "skopeo_args ''/tmp/auth'' ''nginx'' ''latest''
     \<in> set (invoked tool_failing ''nginx'' ''/tmp/auth''
              [(''1.0'', Aware 50), (''latest'', Aware 100), (''2.0'', Aware 70)] dest_tags
              fresh_host)"
    by simp
  have q: "map_of dest_tags ''1.0'' = Some (Aware 50)" by (simp add: dest_tags_def)
  have g: "\<forall>d. (''1.0'', d) \<in> set [(''1.0'', Aware 50), (''latest'', Aware 100), (''2.0'', Aware 70)]
             \<longrightarrow> datetime_ge (Aware 50) d = Inr True"
    by simp
  from t[THEN conjunct2, THEN conjunct1, rule_format, of "''1.0''" "Aware 50"] q g
  show "skopeo_args ''/tmp/auth'' ''nginx'' ''1.0''
     \<notin> set (invoked tool_failing ''nginx'' ''/tmp/auth''
              [(''1.0'', Aware 50), (''latest'', Aware 100), (''2.0'', Aware 70)] dest_tags
              fresh_host)"
    by simp
qed

text \<open>
  C1 as stated fails for a tag that the loop does not reach. With the source tags \<^verbatim>\<open>a\<close>
  and \<^verbatim>\<open>b\<close>, an empty destination and a tool that exits with 1, the tag \<^verbatim>\<open>b\<close> is in the
  source tag map and absent from the destination tag map, and no copy is invoked for it.
  The same happens after a tag whose two timestamps cannot be ordered: with a source
  timestamp of \<^verbatim>\<open>a\<close> that has no timezone and a destination timestamp of \<^verbatim>\<open>a\<close> that has
  one, the comparison raises \<^verbatim>\<open>TypeError\<close> and no copy is invoked for \<^verbatim>\<open>b\<close>, with a tool
  that would exit with 0.
\<close>

theorem sync_failed_copy_hides_stale_tag:
  "map_of [(''a'', Aware 1), (''b'', Aware 1)] ''b'' = Some (Aware 1)
   \<and> map_of ([] :: tags) ''b'' = None
   \<and> skopeo_args ''/tmp/auth'' ''nginx'' ''b''
       \<notin> set (invoked tool_failing ''nginx'' ''/tmp/auth''
                [(''a'', Aware 1), (''b'', Aware 1)] [] fresh_host)
   \<and> map_of [(''a'', Naive 1), (''b'', Aware 1)] ''b'' = Some (Aware 1)
   \<and> map_of [(''a'', Aware 1)] ''b'' = None
   \<and> sync tool_ok ''nginx'' ''/tmp/auth''
        (Inr ((), [(''a'', Naive 1), (''b'', Aware 1)], [(''a'', Aware 1)])) fresh_host =
        (Inl TypeError, \<lparr>stdout = [''Synchronising nginx''], runs = []\<rparr>)
   \<and> skopeo_args ''/tmp/auth'' ''nginx'' ''b''
       \<notin> set (invoked tool_ok ''nginx'' ''/tmp/auth''
                [(''a'', Naive 1), (''b'', Aware 1)] [(''a'', Aware 1)] fresh_host)"
  by (simp add: invoked_def sync_def in_sync_def subprocess_run_check_def tool_failing_def
      tool_ok_def fresh_host_def print_def skopeo_args_def)

text \<open>
  C7. When the destination tag map holds, for every tag of the source tag map, a
  timestamp greater than or equal to the source timestamp, \<^verbatim>\<open>sync\<close> returns normally
  and starts no process: no copy is invoked.
\<close>

theorem sync_in_sync_no_copy:
  assumes "\<forall>(tag, d)\<in>set tags_docker.
             \<exists>q. map_of tags_quay tag = Some q \<and> datetime_ge q d = Inr True"
  shows "sync skopeo repo auth_file (Inr (u, tags_docker, tags_quay)) h =
           (Inr (), print [''Synchronising'', repo] h)
         \<and> runs (snd (sync skopeo repo auth_file (Inr (u, tags_docker, tags_quay)) h)) = runs h"
proof -
  have p: "\<forall>item\<in>set tags_docker. passes skopeo repo auth_file tags_quay item"
    using assms by (auto simp: passes_def in_sync_def)
  have "filter (\<lambda>item. in_sync tags_quay (fst item) (snd item) = Inr False) tags_docker = []"
    using assms by (auto simp: filter_empty_conv in_sync_def)
  then have c: "copied tags_quay tags_docker = []" by (simp add: copied_def)
  from sync_loop_append[OF p, of "[]" "print [''Synchronising'', repo] h"] c
  have "sync skopeo repo auth_file (Inr (u, tags_docker, tags_quay)) h =
           (Inr (), print [''Synchronising'', repo] h)"
    by (simp add: sync_def)
  then show ?thesis by (simp add: print_def)
qed

theorem sync_in_sync_no_copy_witness:
  "sync tool_failing ''nginx'' ''/tmp/auth'' (Inr ((), source_tags, source_tags)) fresh_host =
     (Inr (), \<lparr>stdout = [''Synchronising nginx''], runs = []\<rparr>)"
proof -
  have a: "\<forall>(tag, d)\<in>set source_tags.
             \<exists>q. map_of source_tags tag = Some q \<and> datetime_ge q d = Inr True"
    by (simp add: source_tags_def)
  from sync_in_sync_no_copy[OF a, of tool_failing "''nginx''" "''/tmp/auth''" "()" fresh_host]
  show ?thesis by (simp add: fresh_host_def print_def)
qed

text \<open>
  C8. When the loop has passed the items before a tag, the tag needs a copy and the tool
  exits with a non-zero code for it, \<^verbatim>\<open>sync\<close> ends in \<^verbatim>\<open>CalledProcessError\<close>: the failed
  invocation is the last process started, it is started once, and no item after it is
  processed.
\<close>

theorem sync_stops_at_failed_copy:
  assumes "\<forall>item\<in>set pre. passes skopeo repo auth_file tags_quay item"
    and "in_sync tags_quay tag d = Inr False"
    and "skopeo (skopeo_args auth_file repo tag) = Some rc"
    and "rc \<noteq> 0"
  shows "sync skopeo repo auth_file (Inr (u, pre @ (tag, d) # post, tags_quay)) h =
           (Inl (CalledProcessError rc (skopeo_args auth_file repo tag)),
            (print [''Synchronising'', repo] h)
              \<lparr>runs := runs h @ map (skopeo_args auth_file repo) (copied tags_quay pre)
                                @ [skopeo_args auth_file repo tag]\<rparr>)"
  using sync_loop_append[OF assms(1), of "(tag, d) # post"] assms(2-4)
  by (simp add: sync_def print_def subprocess_run_check_def)

theorem sync_stops_at_failed_copy_witness:
  "sync tool_failing ''nginx'' ''/tmp/auth''
        (Inr ((), [(''1.0'', Aware 50), (''latest'', Aware 100), (''2.0'', Aware 70)], dest_tags))
        fresh_host =
     (Inl (CalledProcessError 1 (skopeo_args ''/tmp/auth'' ''nginx'' ''latest'')),
      \<lparr>stdout = [''Synchronising nginx''],
       runs = [skopeo_args ''/tmp/auth'' ''nginx'' ''latest'']\<rparr>)"
proof -
  have a: "\<forall>item\<in>set [(''1.0'', Aware 50)]. passes tool_failing ''nginx'' ''/tmp/auth'' dest_tags item"
    by (simp add: passes_def in_sync_def dest_tags_def)
  have b: "in_sync dest_tags ''latest'' (Aware 100) = Inr False"
    by (simp add: in_sync_def dest_tags_def)
  have c: "tool_failing (skopeo_args ''/tmp/auth'' ''nginx'' ''latest'') = Some 1"
    by (simp add: tool_failing_def)
  have d: "(1::int) \<noteq> 0" by simp
  have e: "copied dest_tags [(''1.0'', Aware 50)] = []"
    by (simp add: copied_def in_sync_def dest_tags_def)
  from sync_stops_at_failed_copy[OF a b c d, of "()" "[(''2.0'', Aware 70)]" fresh_host] e
  show ?thesis by (simp add: fresh_host_def print_def)
qed

text \<open>
  C9. Every process \<^verbatim>\<open>sync\<close> starts is a \<^verbatim>\<open>skopeo sync\<close> copy of a tag of the source
  tag map; nothing is started for a tag that only the destination has, and nothing is
  deleted.
\<close>

theorem sync_copies_only_source_tags:
  "\<exists>ts. runs (snd (sync skopeo repo auth_file (Inr (u, tags_docker, tags_quay)) h)) =
          runs h @ map (skopeo_args auth_file repo) ts
        \<and> set ts \<subseteq> fst ` set tags_docker"
  using sync_loop_runs[of skopeo repo auth_file tags_quay tags_docker "print [''Synchronising'', repo] h"]
  by (simp add: sync_def print_def)

theorem sync_copies_only_source_tags_witness:
  "\<exists>ts. runs (snd (sync tool_ok ''nginx'' ''/tmp/auth''
                     (Inr ((), source_tags, [(''old'', Aware 1)])) fresh_host)) =
          runs fresh_host @ map (skopeo_args ''/tmp/auth'' ''nginx'') ts
        \<and> set ts \<subseteq> fst ` set source_tags"
  by (rule sync_copies_only_source_tags)

subsection \<open>Auxiliary facts about the rate-limited client\<close>

lemma time_time_range: "- float_max \<le> time_time w \<and> time_time w \<le> float_max"
  by (simp add: time_time_def float_max_def)

lemma float_of_int_near_now:
  assumes "of_int n = time_time w + 2"
  shows "float_of_int n = Some (of_int n)"
proof -
  from time_time_range[of w] assms
  have "- float_max + 2 \<le> real_of_int n" "real_of_int n \<le> float_max + 2" by simp_all
  then have "\<bar>real_of_int n\<bar> < real_of_int (2 ^ 1024 - 2 ^ 970)"
    by (simp add: float_max_def abs_less_iff)
  then have "real_of_int \<bar>n\<bar> < real_of_int (2 ^ 1024 - 2 ^ 970)" by simp
  then have "\<bar>n\<bar> < 2 ^ 1024 - 2 ^ 970" by (simp only: of_int_less_iff)
  then show ?thesis by (simp add: float_of_int_def)
qed

lemma time_time_sent [simp]:
  "time_time (w\<lparr>docker_in := s, docker_out := out\<rparr>) = time_time w"
  by (simp add: time_time_def)

lemma request_at_other:
  assumes "docker_in w = Inr r ## rest" and "status_code r \<noteq> 429"
  shows "request_at L room rq w =
           (Inr r, w\<lparr>docker_in := rest, docker_out := docker_out w @ [rq]\<rparr>)"
  using assms by (subst request_at.simps) (simp add: docker_send_def)

lemma request_at_429:
  assumes "docker_in w = Inr r ## rest" and "status_code r = 429"
    and "headers r ''Retry-After'' = Some v" and "py_int L v = Some n"
    and "float_of_int n = Some x"
  shows "request_at L (Suc room) rq w =
           request_at L room rq
             (asyncio_sleep (x - time_time w)
                (w\<lparr>docker_in := rest, docker_out := docker_out w @ [rq]\<rparr>))"
  using assms by (subst request_at.simps) (simp add: docker_send_def)

lemma request_at_no_room:
  assumes "docker_in w = Inr r ## rest" and "status_code r = 429"
    and "headers r ''Retry-After'' = Some v" and "py_int L v = Some n"
    and "float_of_int n = Some x"
  shows "request_at L 0 rq w =
           (Inl RecursionError,
            asyncio_sleep (x - time_time w)
              (w\<lparr>docker_in := rest, docker_out := docker_out w @ [rq]\<rparr>))"
  using assms by (subst request_at.simps) (simp add: docker_send_def)

lemma rate_limitedE:
  assumes "rate_limited L r"
  obtains v n where "status_code r = 429" "headers r ''Retry-After'' = Some v"
    "py_int L v = Some n" "float_of_int n = Some (of_int n)" "retry_after L r = of_int n"
  using assms
  by (auto simp: rate_limited_def retry_after_def float_of_int_def
      split: option.splits if_splits)

lemma request_other:
  assumes "docker_in w = Inr r ## rest" and "status_code r \<noteq> 429"
  shows "request L rq w =
           (Inr r, w\<lparr>docker_in := rest, docker_out := docker_out w @ [rq]\<rparr>)"
  using request_at_other[OF assms] by (simp add: request_def)

text \<open>The client on a world written out in full, for concrete evaluations.\<close>

lemma request_at_eval:
  "request_at L room rq
     \<lparr>clock = t, sleeps = ss, docker_in = Inr r ## rest, docker_out = out,
      quay_in = qi, quay_out = qo\<rparr> =
   (if status_code r \<noteq> 429
    then (Inr r, \<lparr>clock = t, sleeps = ss, docker_in = rest, docker_out = out @ [rq],
                   quay_in = qi, quay_out = qo\<rparr>)
    else case headers r ''Retry-After'' of
           None \<Rightarrow> (Inl (KeyError ''Retry-After''),
                    \<lparr>clock = t, sleeps = ss, docker_in = rest, docker_out = out @ [rq],
                     quay_in = qi, quay_out = qo\<rparr>)
         | Some v \<Rightarrow>
             (case py_int L v of
                None \<Rightarrow> (Inl ValueError,
                         \<lparr>clock = t, sleeps = ss, docker_in = rest, docker_out = out @ [rq],
                          quay_in = qi, quay_out = qo\<rparr>)
              | Some n \<Rightarrow>
                  (case float_of_int n of
                     None \<Rightarrow> (Inl OverflowError,
                              \<lparr>clock = t, sleeps = ss, docker_in = rest,
                               docker_out = out @ [rq], quay_in = qi, quay_out = qo\<rparr>)
                   | Some x \<Rightarrow>
                       (case room of
                          0 \<Rightarrow> (Inl RecursionError,
                                \<lparr>clock = t + max 0 (x - max (- float_max) (min float_max t)),
                                 sleeps = ss @ [x - max (- float_max) (min float_max t)],
                                 docker_in = rest, docker_out = out @ [rq],
                                 quay_in = qi, quay_out = qo\<rparr>)
                        | Suc room' \<Rightarrow>
                            request_at L room' rq
                              \<lparr>clock = t + max 0 (x - max (- float_max) (min float_max t)),
                               sleeps = ss @ [x - max (- float_max) (min float_max t)],
                               docker_in = rest, docker_out = out @ [rq],
                               quay_in = qi, quay_out = qo\<rparr>))))"
  by (subst request_at.simps)
     (simp add: docker_send_def asyncio_sleep_def time_time_def Let_def
        split: option.splits nat.splits)

lemma float_of_int_small: "\<bar>n\<bar> < 2 ^ 64 \<Longrightarrow> float_of_int n = Some (of_int n)"
  by (simp add: float_of_int_def)

lemma now_small: "\<bar>t\<bar> < 2 ^ 64 \<Longrightarrow> max (- float_max) (min float_max t) = t"
  by (simp add: float_max_def)

lemma digits_zeros: "digits n (replicate k (CHR ''0'')) = Some (n * 10 ^ k)"
  by (induction k arbitrary: n) simp_all

lemma request_at_run:
  assumes "docker_in w = map Inr rs @- (Inr r ## rest)"
    and "\<forall>x\<in>set rs. rate_limited L x"
    and "length rs \<le> room"
    and "status_code r \<noteq> 429"
  shows "\<exists>w' delays.
           request_at L room rq w = (Inr r, w')
           \<and> sleeps w' = sleeps w @ delays \<and> length delays = length rs
           \<and> docker_out w' = docker_out w @ replicate (length rs + 1) rq
           \<and> docker_in w' = rest"
  using assms(1-3)
proof (induction rs arbitrary: w room)
  case Nil
  then have "docker_in w = Inr r ## rest" by simp
  from request_at_other[OF this assms(4), of L room rq]
  show ?case by simp
next
  case (Cons x rs)
  from Cons.prems(3) obtain room' where room: "room = Suc room'" "length rs \<le> room'"
    by (cases room) simp_all
  from Cons.prems(2) have "rate_limited L x" by simp
  then obtain v n where x: "status_code x = 429"
    "headers x ''Retry-After'' = Some v" "py_int L v = Some n"
    "float_of_int n = Some (of_int n)"
    by (rule rate_limitedE)
  let ?w1 = "asyncio_sleep (of_int n - time_time w)
               (w\<lparr>docker_in := map Inr rs @- (Inr r ## rest), docker_out := docker_out w @ [rq]\<rparr>)"
  from Cons.prems(1) have "docker_in w = Inr x ## (map Inr rs @- (Inr r ## rest))" by simp
  from request_at_429[OF this x, of room' rq]
  have step: "request_at L room rq w = request_at L room' rq ?w1" by (simp add: room)
  have "docker_in ?w1 = map Inr rs @- (Inr r ## rest)" by (simp add: asyncio_sleep_def)
  moreover from Cons.prems(2) have "\<forall>x\<in>set rs. rate_limited L x" by simp
  ultimately obtain w' delays where
    "request_at L room' rq ?w1 = (Inr r, w')" "sleeps w' = sleeps ?w1 @ delays"
    "length delays = length rs" "docker_out w' = docker_out ?w1 @ replicate (length rs + 1) rq"
    "docker_in w' = rest"
    using Cons.IH[of ?w1 room'] room(2) by blast
  then show ?case using step
    by (intro exI[of _ w'] exI[of _ "(of_int n - time_time w) # delays"])
       (simp add: asyncio_sleep_def replicate_append_same)
qed

lemma request_at_exhausted:
  assumes "docker_in w = map Inr rs @- rest"
    and "\<forall>x\<in>set rs. rate_limited L x"
    and "length rs = Suc room"
  shows "fst (request_at L room rq w) = Inl RecursionError"
  using assms
proof (induction room arbitrary: rs w)
  case 0
  then obtain x where rs: "rs = [x]" by (cases rs) simp_all
  with 0(2) have "rate_limited L x" by simp
  then obtain v n where x: "status_code x = 429"
    "headers x ''Retry-After'' = Some v" "py_int L v = Some n"
    "float_of_int n = Some (of_int n)"
    by (rule rate_limitedE)
  from 0(1) have "docker_in w = Inr x ## rest" by (simp add: rs)
  from request_at_no_room[OF this x, of rq] show ?case by simp
next
  case (Suc room)
  then obtain x xs where rs: "rs = x # xs" "length xs = Suc room" by (cases rs) simp_all
  with Suc.prems(2) have "rate_limited L x" by simp
  then obtain v n where x: "status_code x = 429"
    "headers x ''Retry-After'' = Some v" "py_int L v = Some n"
    "float_of_int n = Some (of_int n)"
    by (rule rate_limitedE)
  let ?w1 = "asyncio_sleep (of_int n - time_time w)
               (w\<lparr>docker_in := map Inr xs @- rest, docker_out := docker_out w @ [rq]\<rparr>)"
  from Suc.prems(1) have "docker_in w = Inr x ## (map Inr xs @- rest)" by (simp add: rs)
  from request_at_429[OF this x, of room rq]
  have "request_at L (Suc room) rq w = request_at L room rq ?w1" .
  moreover have "docker_in ?w1 = map Inr xs @- rest" by (simp add: asyncio_sleep_def)
  moreover from Suc.prems(2) have "\<forall>x\<in>set xs. rate_limited L x" by (simp add: rs)
  ultimately show ?case using Suc.IH[of ?w1 xs] rs(2) by simp
qed


subsection \<open>The rate-limited client\<close>

text \<open>
  C2 as stated fails: at Unix time 1000, a 429 response with \<^verbatim>\<open>Retry-After: 2\<close> followed
  by a 200 response makes the client ask for a sleep of \<open>2 - 1000\<close> seconds, which is no
  wait at all; the clock does not advance before the 200 response is returned.
\<close>

theorem request_retry_after_2_no_wait:
  "request plain_lib (GET ''x'')
     (world_at 1000 [Inr (too_many_requests ''2''), Inr (plain_response 200)] []) =
   (Inr (plain_response 200),
    \<lparr>clock = 1000, sleeps = [- 998],
     docker_in = hangs_up, docker_out = [GET ''x'', GET ''x''],
     quay_in = hangs_up, quay_out = []\<rparr>)"
  by (simp add: request_def world_at_def request_at_eval too_many_requests_def
      plain_response_def plain_lib_def decimal_def float_of_int_small now_small)

text \<open>
  C2 (as amended). When the \<^verbatim>\<open>Retry-After\<close> header of the 429 response holds the Unix
  time two seconds after the current time, and a 200 response follows, the client
  sleeps for 2 seconds, sends the request a second time and returns the 200 response;
  the 429 response does not reach the caller.
\<close>

theorem request_waits_until_retry_after:
  assumes "docker_in w = Inr limited ## Inr ok ## rest"
    and "status_code limited = 429"
    and "headers limited ''Retry-After'' = Some v"
    and "py_int L v = Some n"
    and "of_int n = time_time w + 2"
    and "status_code ok = 200"
  shows "request L rq w =
           (Inr ok, w\<lparr>clock := clock w + 2, sleeps := sleeps w @ [2],
                      docker_in := rest, docker_out := docker_out w @ [rq, rq]\<rparr>)"
proof -
  let ?w1 = "asyncio_sleep (of_int n - time_time w)
               (w\<lparr>docker_in := Inr ok ## rest, docker_out := docker_out w @ [rq]\<rparr>)"
  have "request L rq w = request_at L (spare_depth L) rq ?w1"
    unfolding request_def
    by (rule request_at_429[OF assms(1-4) float_of_int_near_now[OF assms(5)]])
  also have "\<dots> = (Inr ok, ?w1\<lparr>docker_in := rest, docker_out := docker_out ?w1 @ [rq]\<rparr>)"
    by (rule request_at_other) (simp_all add: asyncio_sleep_def assms(6))
  also have "?w1\<lparr>docker_in := rest, docker_out := docker_out ?w1 @ [rq]\<rparr> =
             w\<lparr>clock := clock w + 2, sleeps := sleeps w @ [2],
               docker_in := rest, docker_out := docker_out w @ [rq, rq]\<rparr>"
    by (simp add: asyncio_sleep_def assms(5))
  finally show ?thesis .
qed

theorem request_waits_until_retry_after_witness:
  "request plain_lib (GET ''x'')
     (world_at 1000 [Inr (too_many_requests ''1002''), Inr (plain_response 200)] []) =
   (Inr (plain_response 200),
    \<lparr>clock = 1002, sleeps = [2],
     docker_in = hangs_up, docker_out = [GET ''x'', GET ''x''],
     quay_in = hangs_up, quay_out = []\<rparr>)"
proof -
  have a: "docker_in (world_at 1000 [Inr (too_many_requests ''1002''), Inr (plain_response 200)] [])
             = Inr (too_many_requests ''1002'') ## Inr (plain_response 200) ## hangs_up"
    by (simp add: world_at_def)
  have b: "status_code (too_many_requests ''1002'') = 429" by (simp add: too_many_requests_def)
  have c: "headers (too_many_requests ''1002'') ''Retry-After'' = Some ''1002''"
    by (simp add: too_many_requests_def)
  have d: "py_int plain_lib ''1002'' = Some 1002" by (simp add: plain_lib_def decimal_def)
  have e: "of_int 1002 =
           time_time (world_at 1000 [Inr (too_many_requests ''1002''), Inr (plain_response 200)] []) + 2"
    by (simp add: world_at_def time_time_def now_small)
  have f: "status_code (plain_response 200) = 200" by (simp add: plain_response_def)
  from request_waits_until_retry_after[OF a b c d e f, of "GET ''x''"]
  show ?thesis by (simp add: world_at_def)
qed

text \<open>
  C3 (as amended). When the replies of the registry are \<open>n\<close> responses with status 429,
  each with a \<^verbatim>\<open>Retry-After\<close> header holding an integer that converts to a float,
  followed by a response \<open>r\<close> with any other status, and \<open>n\<close> does not exceed the number
  of nested calls the interpreter allows, the client returns \<open>r\<close> itself, after exactly
  \<open>n\<close> calls of \<^verbatim>\<open>asyncio.sleep\<close> and \<open>n + 1\<close> sendings of the same request.
\<close>

theorem request_returns_first_other_response:
  assumes "docker_in w = map Inr rs @- (Inr r ## rest)"
    and "\<forall>x\<in>set rs. rate_limited L x"
    and "length rs \<le> Suc (spare_depth L)"
    and "status_code r \<noteq> 429"
  shows "\<exists>w' delays.
           request L rq w = (Inr r, w')
           \<and> sleeps w' = sleeps w @ delays \<and> length delays = length rs
           \<and> docker_out w' = docker_out w @ replicate (length rs + 1) rq
           \<and> docker_in w' = rest"
  unfolding request_def by (rule request_at_run[OF assms])

theorem request_returns_first_other_response_witness:
  "\<exists>w'.
     request plain_lib (GET ''x'')
       (world_at 0 [Inr (too_many_requests ''5''), Inr (too_many_requests ''7''),
                    Inr (plain_response 500)] []) = (Inr (plain_response 500), w')
     \<and> length (sleeps w') = 2
     \<and> docker_out w' = [GET ''x'', GET ''x'', GET ''x'']
     \<and> docker_in w' = hangs_up"
proof -
  have a: "docker_in (world_at 0 [Inr (too_many_requests ''5''), Inr (too_many_requests ''7''),
                    Inr (plain_response 500)] [])
           = map Inr [too_many_requests ''5'', too_many_requests ''7'']
               @- (Inr (plain_response 500) ## hangs_up)"
    by (simp add: world_at_def)
  have b: "\<forall>x\<in>set [too_many_requests ''5'', too_many_requests ''7'']. rate_limited plain_lib x"
    by (simp add: rate_limited_def too_many_requests_def plain_lib_def decimal_def
        float_of_int_small)
  have c: "length [too_many_requests ''5'', too_many_requests ''7''] \<le> Suc (spare_depth plain_lib)"
    by (simp add: plain_lib_def)
  have d: "status_code (plain_response 500) \<noteq> 429" by (simp add: plain_response_def)
  from request_returns_first_other_response[OF a b c d, of "GET ''x''"]
  show ?thesis by (auto simp: world_at_def)
qed

text \<open>
  C3 as stated fails on four kinds of response sequence, each ending in a 200 response
  that the client never returns: a 429 response without a \<^verbatim>\<open>Retry-After\<close> header raises
  \<^verbatim>\<open>KeyError\<close>; one whose header is not an integer raises \<^verbatim>\<open>ValueError\<close>; one whose header
  is the integer \<open>10\<^sup>4\<^sup>0\<^sup>0\<close>, beyond the range of a float, raises \<^verbatim>\<open>OverflowError\<close>; and a
  thousand 429 responses in a row, under an interpreter that allows 999 nested calls,
  raise \<^verbatim>\<open>RecursionError\<close>.
\<close>

theorem request_429_raises:
  "fst (request plain_lib (GET ''x'')
          (world_at 0 [Inr (plain_response 429), Inr (plain_response 200)] []))
     = Inl (KeyError ''Retry-After'')
   \<and> fst (request plain_lib (GET ''x'')
          (world_at 0 [Inr (too_many_requests ''soon''), Inr (plain_response 200)] []))
     = Inl ValueError
   \<and> fst (request plain_lib (GET ''x'')
          (world_at 0 [Inr (too_many_requests (''1'' @ replicate 400 (CHR ''0''))),
                       Inr (plain_response 200)] []))
     = Inl OverflowError
   \<and> fst (request plain_lib (GET ''x'')
          (world_at 0 (replicate 1000 (Inr (too_many_requests ''7''))
                       @ [Inr (plain_response 200)]) []))
     = Inl RecursionError"
proof (intro conjI)
  show "fst (request plain_lib (GET ''x'')
          (world_at 0 [Inr (plain_response 429), Inr (plain_response 200)] []))
     = Inl (KeyError ''Retry-After'')"
    by (simp add: request_def world_at_def request_at_eval plain_response_def)
  show "fst (request plain_lib (GET ''x'')
          (world_at 0 [Inr (too_many_requests ''soon''), Inr (plain_response 200)] []))
     = Inl ValueError"
    by (simp add: request_def world_at_def request_at_eval too_many_requests_def
        plain_lib_def decimal_def)
  have big: "decimal (''1'' @ replicate 400 (CHR ''0'')) = Some (10 ^ 400)"
    by (simp add: decimal_def digits_zeros)
  have over: "float_of_int (10 ^ 400) = None" by (simp add: float_of_int_def)
  show "fst (request plain_lib (GET ''x'')
          (world_at 0 [Inr (too_many_requests (''1'' @ replicate 400 (CHR ''0''))),
                       Inr (plain_response 200)] []))
     = Inl OverflowError"
    using big over
    by (simp add: request_def world_at_def request_at_eval too_many_requests_def plain_lib_def)
  have a: "docker_in (world_at 0 (replicate 1000 (Inr (too_many_requests ''7''))
                       @ [Inr (plain_response 200)]) [])
           = map Inr (replicate 1000 (too_many_requests ''7''))
               @- (Inr (plain_response 200) ## hangs_up)"
    by (simp add: world_at_def)
  have b: "\<forall>x\<in>set (replicate 1000 (too_many_requests ''7'')). rate_limited plain_lib x"
    by (simp add: rate_limited_def too_many_requests_def plain_lib_def decimal_def
        float_of_int_small)
  have c: "length (replicate 1000 (too_many_requests ''7'')) = Suc (Suc (spare_depth plain_lib))"
    by (simp add: plain_lib_def)
  from request_at_exhausted[OF a b c, of "GET ''x''"]
  show "fst (request plain_lib (GET ''x'')
          (world_at 0 (replicate 1000 (Inr (too_many_requests ''7''))
                       @ [Inr (plain_response 200)]) []))
     = Inl RecursionError"
    by (simp add: request_def)
qed




subsection \<open>Ensuring the repository metadata\<close>

lemma quay_checked_eq:
  assumes "quay_in w = answer ## rest"
  shows "quay_checked rq w =
           (checked answer, w\<lparr>quay_in := rest, quay_out := quay_out w @ [rq]\<rparr>)"
  using assms
  by (cases answer) (simp_all add: quay_checked_def quay_send_def checked_def raise_for_status_def)

lemma ensure_description_not_found:
  assumes "quay_in w = fetched ## answer ## rest"
    and "fetched = Inr r \<or> fetched = Inl (HTTPStatusError r)"
    and "status_code r = 404"
  shows "ensure_description repo description w =
           (checked answer,
            w\<lparr>quay_in := rest,
              quay_out := quay_out w @ [GET (''repository/lib/'' @ repo),
                                        create_request repo description]\<rparr>)"
proof -
  let ?w1 = "w\<lparr>quay_in := answer ## rest, quay_out := quay_out w @ [GET (''repository/lib/'' @ repo)]\<rparr>"
  have "\<not> is_success r" using assms(3) by (simp add: is_success_def)
  then have "ensure_description repo description w =
               quay_checked (create_request repo description) ?w1"
    using assms by (auto simp: ensure_description_def quay_send_def raise_for_status_def)
  also have "\<dots> = (checked answer,
                    ?w1\<lparr>quay_in := rest, quay_out := quay_out ?w1 @ [create_request repo description]\<rparr>)"
    by (rule quay_checked_eq) simp
  finally show ?thesis by simp
qed

lemma ensure_description_same:
  assumes "quay_in w = Inr r ## rest" and "is_success r"
    and "body_json r = Some j" and "py_getitem j ''description'' = Inr (JStr description)"
  shows "ensure_description repo description w =
           (Inr (), w\<lparr>quay_in := rest,
                      quay_out := quay_out w @ [GET (''repository/lib/'' @ repo)]\<rparr>)"
  using assms
  by (simp add: ensure_description_def quay_send_def raise_for_status_def response_json_def)

lemma ensure_description_differs:
  assumes "quay_in w = Inr r ## answer ## rest" and "is_success r"
    and "body_json r = Some j" and "py_getitem j ''description'' = Inr stored"
    and "stored \<noteq> JStr description"
  shows "ensure_description repo description w =
           (checked answer,
            w\<lparr>quay_in := rest,
              quay_out := quay_out w @ [GET (''repository/lib/'' @ repo),
                                        update_request repo description]\<rparr>)"
proof -
  let ?w1 = "w\<lparr>quay_in := answer ## rest, quay_out := quay_out w @ [GET (''repository/lib/'' @ repo)]\<rparr>"
  have "ensure_description repo description w =
               quay_checked (update_request repo description) ?w1"
    using assms
    by (simp add: ensure_description_def quay_send_def raise_for_status_def response_json_def)
  also have "\<dots> = (checked answer,
                    ?w1\<lparr>quay_in := rest, quay_out := quay_out ?w1 @ [update_request repo description]\<rparr>)"
    by (rule quay_checked_eq) simp
  finally show ?thesis by simp
qed

lemma ensure_description_status_error:
  assumes "quay_in w = Inr r ## rest" and "\<not> is_success r" and "status_code r \<noteq> 404"
  shows "ensure_description repo description w =
           (Inl (HTTPStatusError r),
            w\<lparr>quay_in := rest, quay_out := quay_out w @ [GET (''repository/lib/'' @ repo)]\<rparr>)"
  using assms
  by (simp add: ensure_description_def quay_send_def raise_for_status_def)

lemma ensure_description_raised:
  assumes "quay_in w = Inl e ## rest" and "\<forall>resp. e = HTTPStatusError resp \<longrightarrow> status_code resp \<noteq> 404"
  shows "ensure_description repo description w =
           (Inl e,
            w\<lparr>quay_in := rest, quay_out := quay_out w @ [GET (''repository/lib/'' @ repo)]\<rparr>)"
  using assms
  by (cases e) (simp_all add: ensure_description_def quay_send_def)



lemma ensure_description_no_json:
  assumes "quay_in w = Inr r ## rest" and "is_success r" and "body_json r = None"
  shows "ensure_description repo description w =
           (Inl JSONDecodeError,
            w\<lparr>quay_in := rest, quay_out := quay_out w @ [GET (''repository/lib/'' @ repo)]\<rparr>)"
  using assms
  by (simp add: ensure_description_def quay_send_def raise_for_status_def response_json_def)

lemma ensure_description_no_key:
  assumes "quay_in w = Inr r ## rest" and "is_success r"
    and "body_json r = Some j" and "py_getitem j ''description'' = Inl e"
  shows "ensure_description repo description w =
           (Inl e,
            w\<lparr>quay_in := rest, quay_out := quay_out w @ [GET (''repository/lib/'' @ repo)]\<rparr>)"
  using assms
  by (simp add: ensure_description_def quay_send_def raise_for_status_def response_json_def)

lemma nginx_compose:
  "compose_description plain_lib ''nginx'' (nginx_world from_quay) =
     (Inr nginx_description, nginx_composed from_quay)"
  by (simp add: compose_description_def docker_get_def request_def nginx_world_def world_at_def
      request_at_eval plain_response_def hub_info_def description_of_def raise_for_status_def
      is_success_def is_redirect_def response_json_def plain_lib_def nginx_description_def
      nginx_composed_def)

text \<open>
  C4 (as amended). Once the description is composed, \<^verbatim>\<open>ensure_quay_repo\<close> sends one GET
  for the repository to Quay and then does exactly one of the following, according to
  the reply.
  \<^item> The fetch fails with a 404 response: it sends one POST that creates the repository
    in the namespace \<^verbatim>\<open>lib\<close>, public, of kind image, with the composed description, and
    no PUT.
  \<^item> A 2xx response whose JSON body holds a description equal to the composed one: it
    sends nothing more, and returns normally.
  \<^item> A 2xx response whose JSON body holds another description: it sends one PUT that
    carries the composed description, and no POST.
  \<^item> A 2xx response that is not JSON, or whose JSON has no description: the error
    propagates and nothing more is sent.
  \<^item> Any other response, or another exception raised by the fetch: the error propagates
    and nothing more is sent.
\<close>

theorem ensure_quay_repo_outcomes:
  assumes "compose_description L repo w = (Inr description, w1)"
    and "quay_in w1 = fetched ## answer ## rest"
  shows
    "let fetch = \<lparr>req_method = ''GET'', req_url = ''repository/lib/'' @ repo,
                  req_params = [], req_json = None\<rparr>;
         create = \<lparr>req_method = ''POST'', req_url = ''repository'', req_params = [],
                   req_json = Some (JObj [(''namespace'', JStr ''lib''),
                                          (''repository'', JStr repo),
                                          (''description'', JStr description),
                                          (''visibility'', JStr ''public''),
                                          (''repo_kind'', JStr ''image'')])\<rparr>;
         update = \<lparr>req_method = ''PUT'', req_url = ''repository/lib/'' @ repo,
                   req_params = [],
                   req_json = Some (JObj [(''description'', JStr description)])\<rparr>
     in
     (\<forall>r. (fetched = Inr r \<or> fetched = Inl (HTTPStatusError r)) \<and> status_code r = 404 \<longrightarrow>
        ensure_quay_repo L repo w =
          (checked answer,
           w1\<lparr>quay_in := rest, quay_out := quay_out w1 @ [fetch, create]\<rparr>))
     \<and> (\<forall>r j. fetched = Inr r \<and> is_success r \<and> body_json r = Some j
              \<and> py_getitem j ''description'' = Inr (JStr description) \<longrightarrow>
        ensure_quay_repo L repo w =
          (Inr (), w1\<lparr>quay_in := answer ## rest, quay_out := quay_out w1 @ [fetch]\<rparr>))
     \<and> (\<forall>r j stored. fetched = Inr r \<and> is_success r \<and> body_json r = Some j
              \<and> py_getitem j ''description'' = Inr stored \<and> stored \<noteq> JStr description \<longrightarrow>
        ensure_quay_repo L repo w =
          (checked answer,
           w1\<lparr>quay_in := rest, quay_out := quay_out w1 @ [fetch, update]\<rparr>))
     \<and> (\<forall>r. fetched = Inr r \<and> is_success r \<and> body_json r = None \<longrightarrow>
        ensure_quay_repo L repo w =
          (Inl JSONDecodeError,
           w1\<lparr>quay_in := answer ## rest, quay_out := quay_out w1 @ [fetch]\<rparr>))
     \<and> (\<forall>r j e. fetched = Inr r \<and> is_success r \<and> body_json r = Some j
              \<and> py_getitem j ''description'' = Inl e \<longrightarrow>
        ensure_quay_repo L repo w =
          (Inl e, w1\<lparr>quay_in := answer ## rest, quay_out := quay_out w1 @ [fetch]\<rparr>))
     \<and> (\<forall>r. fetched = Inr r \<and> \<not> is_success r \<and> status_code r \<noteq> 404 \<longrightarrow>
        ensure_quay_repo L repo w =
          (Inl (HTTPStatusError r),
           w1\<lparr>quay_in := answer ## rest, quay_out := quay_out w1 @ [fetch]\<rparr>))
     \<and> (\<forall>e. fetched = Inl e
              \<and> (\<forall>resp. e = HTTPStatusError resp \<longrightarrow> status_code resp \<noteq> 404) \<longrightarrow>
        ensure_quay_repo L repo w =
          (Inl e, w1\<lparr>quay_in := answer ## rest, quay_out := quay_out w1 @ [fetch]\<rparr>))"
proof -
  have e: "ensure_quay_repo L repo w = ensure_description repo description w1"
    using assms(1) by (simp add: ensure_quay_repo_def)
  note names = GET_def create_request_def update_request_def
  have c1: "ensure_description repo description w1 =
          (checked answer,
           w1\<lparr>quay_in := rest,
              quay_out := quay_out w1 @ [GET (''repository/lib/'' @ repo),
                                         create_request repo description]\<rparr>)"
    if "fetched = Inr r \<or> fetched = Inl (HTTPStatusError r)" "status_code r = 404" for r
    by (rule ensure_description_not_found[OF assms(2) that])
  have c2: "ensure_description repo description w1 =
          (Inr (), w1\<lparr>quay_in := answer ## rest,
                      quay_out := quay_out w1 @ [GET (''repository/lib/'' @ repo)]\<rparr>)"
    if "fetched = Inr r" "is_success r" "body_json r = Some j"
      "py_getitem j ''description'' = Inr (JStr description)" for r j
    using assms(2) that by (intro ensure_description_same) simp_all
  have c3: "ensure_description repo description w1 =
          (checked answer,
           w1\<lparr>quay_in := rest,
              quay_out := quay_out w1 @ [GET (''repository/lib/'' @ repo),
                                         update_request repo description]\<rparr>)"
    if "fetched = Inr r" "is_success r" "body_json r = Some j"
      "py_getitem j ''description'' = Inr stored" "stored \<noteq> JStr description" for r j stored
    using assms(2) that by (intro ensure_description_differs) simp_all
  have c4: "ensure_description repo description w1 =
          (Inl JSONDecodeError,
           w1\<lparr>quay_in := answer ## rest,
              quay_out := quay_out w1 @ [GET (''repository/lib/'' @ repo)]\<rparr>)"
    if "fetched = Inr r" "is_success r" "body_json r = None" for r
    using assms(2) that by (intro ensure_description_no_json) simp_all
  have c5: "ensure_description repo description w1 =
          (Inl e, w1\<lparr>quay_in := answer ## rest,
                     quay_out := quay_out w1 @ [GET (''repository/lib/'' @ repo)]\<rparr>)"
    if "fetched = Inr r" "is_success r" "body_json r = Some j"
      "py_getitem j ''description'' = Inl e" for r j e
    using assms(2) that by (intro ensure_description_no_key) simp_all
  have c6: "ensure_description repo description w1 =
          (Inl (HTTPStatusError r),
           w1\<lparr>quay_in := answer ## rest,
              quay_out := quay_out w1 @ [GET (''repository/lib/'' @ repo)]\<rparr>)"
    if "fetched = Inr r" "\<not> is_success r" "status_code r \<noteq> 404" for r
    using assms(2) that by (intro ensure_description_status_error) simp_all
  have c7: "ensure_description repo description w1 =
          (Inl e, w1\<lparr>quay_in := answer ## rest,
                     quay_out := quay_out w1 @ [GET (''repository/lib/'' @ repo)]\<rparr>)"
    if "fetched = Inl e" "\<forall>resp. e = HTTPStatusError resp \<longrightarrow> status_code resp \<noteq> 404" for e
    using assms(2) that by (intro ensure_description_raised) simp_all
  show ?thesis
    unfolding Let_def e
    using c1 c2 c3 c4 c5 c6 c7
    by (simp only: names) blast
qed

theorem ensure_quay_repo_outcomes_witness:
  "ensure_quay_repo plain_lib ''nginx''
     (nginx_world [Inr (plain_response 404), Inr (plain_response 201)]) =
     (Inr (),
      (nginx_composed [])
        \<lparr>quay_out :=
           [\<lparr>req_method = ''GET'', req_url = ''repository/lib/nginx'',
             req_params = [], req_json = None\<rparr>,
            \<lparr>req_method = ''POST'', req_url = ''repository'', req_params = [],
             req_json = Some (JObj [(''namespace'', JStr ''lib''),
                                    (''repository'', JStr ''nginx''),
                                    (''description'', JStr nginx_description),
                                    (''visibility'', JStr ''public''),
                                    (''repo_kind'', JStr ''image'')])\<rparr>]\<rparr>)
   \<and> ensure_quay_repo plain_lib ''nginx''
     (nginx_world [Inr (quay_repo nginx_description), Inl TransportError]) =
     (Inr (),
      (nginx_composed [Inl TransportError])
        \<lparr>quay_out :=
           [\<lparr>req_method = ''GET'', req_url = ''repository/lib/nginx'',
             req_params = [], req_json = None\<rparr>]\<rparr>)
   \<and> ensure_quay_repo plain_lib ''nginx''
     (nginx_world [Inr (quay_repo ''old''), Inr (plain_response 200)]) =
     (Inr (),
      (nginx_composed [])
        \<lparr>quay_out :=
           [\<lparr>req_method = ''GET'', req_url = ''repository/lib/nginx'',
             req_params = [], req_json = None\<rparr>,
            \<lparr>req_method = ''PUT'', req_url = ''repository/lib/nginx'', req_params = [],
             req_json = Some (JObj [(''description'', JStr nginx_description)])\<rparr>]\<rparr>)
   \<and> ensure_quay_repo plain_lib ''nginx''
     (nginx_world [Inr (plain_response 500), Inl TransportError]) =
     (Inl (HTTPStatusError (plain_response 500)),
      (nginx_composed [Inl TransportError])
        \<lparr>quay_out :=
           [\<lparr>req_method = ''GET'', req_url = ''repository/lib/nginx'',
             req_params = [], req_json = None\<rparr>]\<rparr>)"
proof (intro conjI)
  have q: "\<And>a b. quay_in (nginx_composed [a, b]) = a ## b ## hangs_up"
    by (simp add: nginx_composed_def)
  have old: "JStr ''old'' \<noteq> JStr nginx_description"
    by (simp add: nginx_description_def preamble_text_def)
  note t = ensure_quay_repo_outcomes[OF nginx_compose q, unfolded Let_def]
  from t[of "Inr (plain_response 404)" "Inr (plain_response 201)"]
  show "ensure_quay_repo plain_lib ''nginx''
     (nginx_world [Inr (plain_response 404), Inr (plain_response 201)]) =
     (Inr (),
      (nginx_composed [])
        \<lparr>quay_out :=
           [\<lparr>req_method = ''GET'', req_url = ''repository/lib/nginx'',
             req_params = [], req_json = None\<rparr>,
            \<lparr>req_method = ''POST'', req_url = ''repository'', req_params = [],
             req_json = Some (JObj [(''namespace'', JStr ''lib''),
                                    (''repository'', JStr ''nginx''),
                                    (''description'', JStr nginx_description),
                                    (''visibility'', JStr ''public''),
                                    (''repo_kind'', JStr ''image'')])\<rparr>]\<rparr>)"
    by (simp add: plain_response_def checked_def is_success_def nginx_composed_def)
  from t[of "Inr (quay_repo nginx_description)" "Inl TransportError"]
  show "ensure_quay_repo plain_lib ''nginx''
     (nginx_world [Inr (quay_repo nginx_description), Inl TransportError]) =
     (Inr (),
      (nginx_composed [Inl TransportError])
        \<lparr>quay_out :=
           [\<lparr>req_method = ''GET'', req_url = ''repository/lib/nginx'',
             req_params = [], req_json = None\<rparr>]\<rparr>)"
    by (simp add: quay_repo_def is_success_def nginx_composed_def)
  from t[of "Inr (quay_repo ''old'')" "Inr (plain_response 200)"] old
  show "ensure_quay_repo plain_lib ''nginx''
     (nginx_world [Inr (quay_repo ''old''), Inr (plain_response 200)]) =
     (Inr (),
      (nginx_composed [])
        \<lparr>quay_out :=
           [\<lparr>req_method = ''GET'', req_url = ''repository/lib/nginx'',
             req_params = [], req_json = None\<rparr>,
            \<lparr>req_method = ''PUT'', req_url = ''repository/lib/nginx'', req_params = [],
             req_json = Some (JObj [(''description'', JStr nginx_description)])\<rparr>]\<rparr>)"
    by (simp add: quay_repo_def plain_response_def checked_def is_success_def nginx_composed_def)
  from t[of "Inr (plain_response 500)" "Inl TransportError"]
  show "ensure_quay_repo plain_lib ''nginx''
     (nginx_world [Inr (plain_response 500), Inl TransportError]) =
     (Inl (HTTPStatusError (plain_response 500)),
      (nginx_composed [Inl TransportError])
        \<lparr>quay_out :=
           [\<lparr>req_method = ''GET'', req_url = ''repository/lib/nginx'',
             req_params = [], req_json = None\<rparr>]\<rparr>)"
    by (simp add: plain_response_def is_success_def nginx_composed_def)
qed

text \<open>
  C4 as stated fails when the fetch succeeds without a stored description: on an empty
  200 response, and on a 200 response whose JSON has no description, the stored
  description does not equal the composed one, yet no PUT is sent: \<^verbatim>\<open>ensure_quay_repo\<close>
  raises \<^verbatim>\<open>JSONDecodeError\<close> or \<^verbatim>\<open>KeyError\<close> after the GET.
\<close>

theorem ensure_quay_repo_no_stored_description:
  "ensure_quay_repo plain_lib ''nginx''
     (nginx_world [Inr (plain_response 200), Inr (plain_response 200)]) =
     (Inl JSONDecodeError,
      (nginx_composed [Inr (plain_response 200)])
        \<lparr>quay_out :=
           [\<lparr>req_method = ''GET'', req_url = ''repository/lib/nginx'',
             req_params = [], req_json = None\<rparr>]\<rparr>)
   \<and> ensure_quay_repo plain_lib ''nginx''
     (nginx_world [Inr \<lparr>status_code = 200, headers = Map.empty,
                          body_json = Some (JObj [(''name'', JStr ''nginx'')])\<rparr>,
                   Inr (plain_response 200)]) =
     (Inl (KeyError ''description''),
      (nginx_composed [Inr (plain_response 200)])
        \<lparr>quay_out :=
           [\<lparr>req_method = ''GET'', req_url = ''repository/lib/nginx'',
             req_params = [], req_json = None\<rparr>]\<rparr>)"
  by (simp add: ensure_quay_repo_def nginx_compose ensure_description_def quay_send_def
      nginx_composed_def GET_def raise_for_status_def is_success_def response_json_def
      plain_response_def)

subsection \<open>Auxiliary facts about tag maps\<close>

lemma map_of_collect: "map_of (collect items tags) = map_of (rev items @ tags)"
proof (induction items arbitrary: tags)
  case Nil
  show ?case by (simp add: collect_def)
next
  case (Cons item items)
  have "map_of (collect (item # items) tags) =
        map_of (collect items (AList.update (fst item) (snd item) tags))"
    by (simp add: collect_def)
  also have "\<dots> = map_of (rev items @ AList.update (fst item) (snd item) tags)"
    by (rule Cons.IH)
  also have "\<dots> = map_of (rev (item # items) @ tags)"
    by (simp add: update_conv' map_add_def fun_eq_iff split: option.splits)
  finally show ?case .
qed

lemma collect_append: "collect (xs @ ys) tags = collect ys (collect xs tags)"
  by (simp add: collect_def)

subsection \<open>Listing the tags of Docker Hub\<close>

lemma docker_results_collect:
  "list_all2 (docker_item L) results items \<Longrightarrow>
   docker_results L results tags = Inr (collect items tags)"
proof (induction results items arbitrary: tags rule: list_all2_induct)
  case Nil
  show ?case by (simp add: collect_def)
next
  case (Cons result results item items)
  from Cons.hyps(1) obtain lu where
    "py_getitem result ''last_updated'' = Inr lu" "fromisoformat L lu = Inr (snd item)"
    "py_getitem result ''name'' = Inr (JStr (fst item))"
    by (auto simp: docker_item_def split: sum.splits)
  then show ?case using Cons.IH[of "AList.update (fst item) (snd item) tags"]
    by (simp add: collect_def)
qed

lemma docker_page_collect:
  "docker_tag_page L r items next \<Longrightarrow> docker_page L r tags = Inr (collect items tags, next)"
  by (auto simp: docker_tag_page_def docker_page_def raise_for_status_def response_json_def
      docker_results_collect split: option.splits sum.splits)

lemma docker_get_page:
  assumes "docker_in w = Inr r ## rest" and "is_success r"
  shows "docker_get L url w =
           (Inr r, w\<lparr>docker_in := rest, docker_out := docker_out w @ [GET url]\<rparr>)"
proof -
  from assms(2) have "status_code r \<noteq> 429" by (simp add: is_success_def)
  from request_other[OF assms(1) this] show ?thesis by (simp add: docker_get_def)
qed

lemma get_tags_docker_loop_chain:
  assumes "docker_in w = map (\<lambda>p. Inr (page_response p)) chain @- rest"
    and "\<forall>p\<in>set chain. docker_tag_page L (page_response p) (page_items p) (page_next p)"
    and "linked (map page_next chain)"
  shows "get_tags_docker_loop L url tags w =
           Some (Inr (collect (concat (map page_items chain)) tags),
                 w\<lparr>docker_in := rest,
                   docker_out := docker_out w
                     @ map GET (url # map url_of (butlast (map page_next chain)))\<rparr>)"
  using assms
proof (induction chain arbitrary: url tags w)
  case Nil
  then show ?case by simp
next
  case (Cons p chain)
  obtain r items "next" where p: "p = (r, items, next)" by (cases p)
  let ?w1 = "w\<lparr>docker_in := map (\<lambda>p. Inr (page_response p)) chain @- rest,
                docker_out := docker_out w @ [GET url]\<rparr>"
  from Cons.prems(2) have page: "docker_tag_page L r items next" by (simp add: p)
  then have ok: "is_success r" by (simp add: docker_tag_page_def)
  from Cons.prems(1) have "docker_in w = Inr r ## (map (\<lambda>p. Inr (page_response p)) chain @- rest)"
    by (simp add: p)
  from docker_get_page[OF this ok]
  have got: "docker_get L url w = (Inr r, ?w1)" .
  note pg = docker_page_collect[OF page, of tags]
  show ?case
  proof (cases chain)
    case Nil
    with Cons.prems(3) have "\<not> truthy next" by (simp add: p)
    then show ?thesis using got pg Nil
      by (subst get_tags_docker_loop.simps) (simp add: p)
  next
    case (Cons p' chain')
    with Cons.prems(3) obtain u where u: "next = JStr u" "u \<noteq> []"
      and l: "linked (map page_next chain)"
      by (auto simp: p split: json.splits)
    have "get_tags_docker_loop L url tags w = get_tags_docker_loop L u (collect items tags) ?w1"
      using got pg u by (subst get_tags_docker_loop.simps) simp
    also have "\<dots> = Some (Inr (collect (concat (map page_items chain)) (collect items tags)),
                 ?w1\<lparr>docker_in := rest,
                   docker_out := docker_out ?w1
                     @ map GET (u # map url_of (butlast (map page_next chain)))\<rparr>)"
      using Cons.prems(2) l by (intro Cons.IH) simp_all
    finally show ?thesis using Cons u
      by (simp add: p collect_append)
  qed
qed


text \<open>
  C5 (as amended). When Docker Hub answers with a chain of pages in which every page but
  the last gives the URL of the next page and the last gives \<^verbatim>\<open>null\<close> (or another false
  value), \<^verbatim>\<open>get_tags_docker\<close> requests the first page, then each \<^verbatim>\<open>next\<close> URL in turn, and
  returns the tag map collected from the items of all pages in order: every name maps to
  the timestamp of its last occurrence.
\<close>

theorem get_tags_docker_follows_chain:
  assumes "docker_in w = map (\<lambda>p. Inr (page_response p)) chain @- rest"
    and "\<forall>p\<in>set chain. docker_tag_page L (page_response p) (page_items p) (page_next p)"
    and "linked (map page_next chain)"
  shows "get_tags_docker L repo w =
           Some (Inr (collect (concat (map page_items chain)) []),
                 w\<lparr>docker_in := rest,
                   docker_out := docker_out w
                     @ map GET ((''namespaces/library/repositories/'' @ repo @ ''/tags?page_size=100'')
                                # map url_of (butlast (map page_next chain)))\<rparr>)
         \<and> map_of (collect (concat (map page_items chain)) []) =
             map_of (rev (concat (map page_items chain)))"
  using get_tags_docker_loop_chain[OF assms] map_of_collect[of "concat (map page_items chain)" "[]"]
  by (simp add: get_tags_docker_def)

theorem get_tags_docker_follows_chain_witness:
  "get_tags_docker plain_lib ''nginx''
     (world_at 0 [Inr (hub_tags [hub_tag ''latest'' ''100'', hub_tag ''1.0'' ''50''] (JStr ''page2'')),
                  Inr (hub_tags [hub_tag ''latest'' ''120''] JNull)] []) =
   Some (Inr [(''latest'', Aware 120), (''1.0'', Aware 50)],
         \<lparr>clock = 0, sleeps = [], docker_in = hangs_up,
          docker_out = [GET ''namespaces/library/repositories/nginx/tags?page_size=100'',
                        GET ''page2''],
          quay_in = hangs_up, quay_out = []\<rparr>)"
proof -
  let ?w = "world_at 0 [Inr (hub_tags [hub_tag ''latest'' ''100'', hub_tag ''1.0'' ''50''] (JStr ''page2'')),
                  Inr (hub_tags [hub_tag ''latest'' ''120''] JNull)] []"
  have a: "docker_in ?w = map (\<lambda>p. Inr (page_response p)) two_pages @- hangs_up"
    by (simp add: world_at_def two_pages_def)
  have b: "\<forall>p\<in>set two_pages. docker_tag_page plain_lib (page_response p) (page_items p) (page_next p)"
    by (simp add: two_pages_def docker_tag_page_def hub_tags_def hub_tag_def is_success_def
        docker_item_def plain_lib_def decimal_def)
  have c: "linked (map page_next two_pages)" by (simp add: two_pages_def)
  from get_tags_docker_follows_chain[OF a b c, of "''nginx''"]
  show ?thesis by (simp add: two_pages_def collect_def world_at_def)
qed

text \<open>
  C5 as stated fails for a chain that ends in an absent \<^verbatim>\<open>next\<close> value: on a page
  without the key \<^verbatim>\<open>next\<close> the listing raises \<^verbatim>\<open>KeyError\<close> and returns no tag map.
\<close>

theorem get_tags_docker_absent_next:
  "get_tags_docker plain_lib ''nginx''
     (world_at 0 [Inr (hub_tags_without_next [hub_tag ''latest'' ''100''])] []) =
   Some (Inl (KeyError ''next''),
         \<lparr>clock = 0, sleeps = [], docker_in = hangs_up,
          docker_out = [GET ''namespaces/library/repositories/nginx/tags?page_size=100''],
          quay_in = hangs_up, quay_out = []\<rparr>)"
  by (subst get_tags_docker_def, subst get_tags_docker_loop.simps)
     (simp add: docker_get_def request_def world_at_def request_at_eval
       hub_tags_without_next_def hub_tag_def
       docker_page_def raise_for_status_def is_success_def response_json_def plain_lib_def
       decimal_def)

subsection \<open>Listing the tags of Quay\<close>

lemma set_update_subset: "set (AList.update k v al) \<subseteq> insert (k, v) (set al)"
  by (induction al) auto

lemma set_collect_subset: "set (collect items tags) \<subseteq> set items \<union> set tags"
proof (induction items arbitrary: tags)
  case Nil
  show ?case by (simp add: collect_def)
next
  case (Cons item items)
  have "set (collect (item # items) tags) =
        set (collect items (AList.update (fst item) (snd item) tags))"
    by (simp add: collect_def)
  also have "\<dots> \<subseteq> set items \<union> set (AList.update (fst item) (snd item) tags)"
    by (rule Cons.IH)
  also have "\<dots> \<subseteq> set (item # items) \<union> set tags"
    using set_update_subset[of "fst item" "snd item" tags] by auto
  finally show ?case .
qed

lemma is_aware_assume_utc: "is_aware (assume_utc d)"
  by (cases d) simp_all

lemma quay_tags_collect:
  "list_all2 (quay_item L) ts items \<Longrightarrow>
   quay_tags L ts tags = Inr (collect (in_utc items) tags)"
proof (induction ts items arbitrary: tags rule: list_all2_induct)
  case Nil
  show ?case by (simp add: collect_def in_utc_def)
next
  case (Cons tag ts item items)
  from Cons.hyps(1) obtain lm where
    "py_getitem tag ''last_modified'' = Inr lm" "parsedate_to_datetime L lm = Inr (snd item)"
    "py_getitem tag ''name'' = Inr (JStr (fst item))"
    by (auto simp: quay_item_def split: sum.splits)
  then show ?case using Cons.IH[of "AList.update (fst item) (assume_utc (snd item)) tags"]
    by (simp add: collect_def in_utc_def)
qed

lemma quay_page_collect:
  "quay_tag_page L r items has_additional \<Longrightarrow>
   quay_page L r tags = Inr (collect (in_utc items) tags, has_additional)"
  by (auto simp: quay_tag_page_def quay_page_def raise_for_status_def response_json_def
      quay_tags_collect split: option.splits sum.splits)

lemma in_utc_append: "in_utc (xs @ ys) = in_utc xs @ in_utc ys"
  by (simp add: in_utc_def)

lemma get_tags_quay_loop_pages:
  assumes "quay_in w = map (\<lambda>p. Inr (page_response p)) pages @- rest"
    and "\<forall>p\<in>set pages. quay_tag_page L (page_response p) (page_items p) (page_next p)"
    and "more_until_last (map page_next pages)"
  shows "get_tags_quay_loop L repo page tags w =
           Some (Inr (collect (in_utc (concat (map page_items pages))) tags),
                 w\<lparr>quay_in := rest,
                   quay_out := quay_out w
                     @ map (quay_tag_request repo) [page..page + int (length pages) - 1]\<rparr>)"
  using assms
proof (induction pages arbitrary: page tags w)
  case Nil
  then show ?case by simp
next
  case (Cons p pages)
  obtain r items flag where p: "p = (r, items, flag)" by (cases p)
  let ?w1 = "w\<lparr>quay_in := map (\<lambda>p. Inr (page_response p)) pages @- rest,
                quay_out := quay_out w @ [quay_tag_request repo page]\<rparr>"
  from Cons.prems(2) have pg: "quay_tag_page L r items flag" by (simp add: p)
  from Cons.prems(1) have sent: "quay_send (quay_tag_request repo page) w = (Inr r, ?w1)"
    by (simp add: quay_send_def p)
  note pc = quay_page_collect[OF pg, of tags]
  show ?case
  proof (cases pages)
    case Nil
    with Cons.prems(3) have "\<not> truthy flag" by (simp add: p)
    then show ?thesis using sent pc Nil
      by (subst get_tags_quay_loop.simps) (simp add: p)
  next
    case (Cons p' pages')
    with Cons.prems(3) have t: "truthy flag" and m: "more_until_last (map page_next pages)"
      by (simp_all add: p)
    have "get_tags_quay_loop L repo page tags w =
          get_tags_quay_loop L repo (page + 1) (collect (in_utc items) tags) ?w1"
      using sent pc t by (subst get_tags_quay_loop.simps) simp
    also have "\<dots> = Some (Inr (collect (in_utc (concat (map page_items pages))) (collect (in_utc items) tags)),
                 ?w1\<lparr>quay_in := rest,
                   quay_out := quay_out ?w1
                     @ map (quay_tag_request repo) [page + 1..page + 1 + int (length pages) - 1]\<rparr>)"
      using Cons.prems(2) m by (intro Cons.IH) simp_all
    finally show ?thesis
      by (simp add: p collect_append in_utc_append upto_rec1[of page])
  qed
qed

text \<open>
  C6. When Quay answers with pages whose \<^verbatim>\<open>has_additional\<close> flag is true on every page
  but the last, \<^verbatim>\<open>get_tags_quay\<close> requests the pages 1, 2, ... in turn, one request per
  page, each with \<^verbatim>\<open>limit\<close> 100 and \<^verbatim>\<open>onlyActiveTags\<close> true, and returns the tag map
  collected from the tags of all pages, in which a timestamp parsed without a timezone
  has been given UTC: every timestamp of the returned map is timezone-aware.
\<close>

theorem get_tags_quay_pages:
  assumes "quay_in w = map (\<lambda>p. Inr (page_response p)) pages @- rest"
    and "\<forall>p\<in>set pages. quay_tag_page L (page_response p) (page_items p) (page_next p)"
    and "more_until_last (map page_next pages)"
  shows "get_tags_quay L repo w =
           Some (Inr (collect (in_utc (concat (map page_items pages))) []),
                 w\<lparr>quay_in := rest,
                   quay_out := quay_out w
                     @ map (\<lambda>page.
                              \<lparr>req_method = ''GET'',
                               req_url = ''repository/lib/'' @ repo @ ''/tag/'',
                               req_params = [(''page'', JInt page), (''limit'', JInt 100),
                                             (''onlyActiveTags'', JBool True)],
                               req_json = None\<rparr>)
                           [1..int (length pages)]\<rparr>)
         \<and> map_of (collect (in_utc (concat (map page_items pages))) []) =
             map_of (rev (in_utc (concat (map page_items pages))))
         \<and> (\<forall>item\<in>set (collect (in_utc (concat (map page_items pages))) []). is_aware (snd item))"
proof (intro conjI)
  have "quay_tag_request repo = (\<lambda>page.
                              \<lparr>req_method = ''GET'',
                               req_url = ''repository/lib/'' @ repo @ ''/tag/'',
                               req_params = [(''page'', JInt page), (''limit'', JInt 100),
                                             (''onlyActiveTags'', JBool True)],
                               req_json = None\<rparr>)"
    by (rule ext) (simp add: quay_tag_request_def)
  with get_tags_quay_loop_pages[OF assms, of repo 1 "[]"]
  show "get_tags_quay L repo w =
           Some (Inr (collect (in_utc (concat (map page_items pages))) []),
                 w\<lparr>quay_in := rest,
                   quay_out := quay_out w
                     @ map (\<lambda>page.
                              \<lparr>req_method = ''GET'',
                               req_url = ''repository/lib/'' @ repo @ ''/tag/'',
                               req_params = [(''page'', JInt page), (''limit'', JInt 100),
                                             (''onlyActiveTags'', JBool True)],
                               req_json = None\<rparr>)
                           [1..int (length pages)]\<rparr>)"
    by (simp add: get_tags_quay_def)
next
  show "map_of (collect (in_utc (concat (map page_items pages))) []) =
             map_of (rev (in_utc (concat (map page_items pages))))"
    using map_of_collect[of "in_utc (concat (map page_items pages))" "[]"] by simp
next
  show "\<forall>item\<in>set (collect (in_utc (concat (map page_items pages))) []). is_aware (snd item)"
  proof
    fix item assume "item \<in> set (collect (in_utc (concat (map page_items pages))) [])"
    with set_collect_subset[of "in_utc (concat (map page_items pages))" "[]"]
    have "item \<in> set (in_utc (concat (map page_items pages)))" by auto
    then show "is_aware (snd item)" by (auto simp: in_utc_def is_aware_assume_utc)
  qed
qed

theorem get_tags_quay_pages_witness:
  "get_tags_quay plain_lib ''nginx''
     (world_at 0 [] [Inr (quay_tags_page [quay_tag ''latest'' ''100''] True),
                     Inr (quay_tags_page [quay_tag ''1.0'' ''50''] False)]) =
   Some (Inr [(''latest'', Aware 100), (''1.0'', Aware 50)],
         \<lparr>clock = 0, sleeps = [], docker_in = hangs_up, docker_out = [],
          quay_in = hangs_up,
          quay_out = [quay_tag_request ''nginx'' 1, quay_tag_request ''nginx'' 2]\<rparr>)"
proof -
  let ?w = "world_at 0 [] [Inr (quay_tags_page [quay_tag ''latest'' ''100''] True),
                     Inr (quay_tags_page [quay_tag ''1.0'' ''50''] False)]"
  have a: "quay_in ?w = map (\<lambda>p. Inr (page_response p)) two_quay_pages @- hangs_up"
    by (simp add: world_at_def two_quay_pages_def)
  have b: "\<forall>p\<in>set two_quay_pages. quay_tag_page plain_lib (page_response p) (page_items p) (page_next p)"
    by (simp add: two_quay_pages_def quay_tag_page_def quay_tags_page_def quay_tag_def
        is_success_def quay_item_def plain_lib_def decimal_def)
  have c: "more_until_last (map page_next two_quay_pages)" by (simp add: two_quay_pages_def)
  have u: "[1..int (length two_quay_pages)] = [1, 2]"
    by (simp add: two_quay_pages_def upto_rec1)
  from get_tags_quay_pages[OF a b c, of "''nginx''"] u
  show ?thesis
    by (simp add: two_quay_pages_def collect_def in_utc_def world_at_def quay_tag_request_def)
qed

subsection \<open>Facts that hold whatever the registries answer\<close>

text \<open>A response returned by the rate-limited client never has the status 429.\<close>

lemma request_at_result_not_429:
  "request_at L room rq w = (Inr r, w') \<Longrightarrow> status_code r \<noteq> 429"
proof (induction room arbitrary: w)
  case 0
  then show ?case
    by (subst (asm) request_at.simps)
       (auto simp: Let_def split: prod.splits sum.splits if_splits option.splits)
next
  case (Suc room)
  from Suc.prems show ?case
    by (subst (asm) request_at.simps)
       (auto simp: Let_def dest: Suc.IH split: prod.splits sum.splits if_splits option.splits)
qed

lemma request_result_not_429:
  "request L rq w = (Inr r, w') \<Longrightarrow> status_code r \<noteq> 429"
  by (simp add: request_def request_at_result_not_429)

text \<open>Every timestamp of a tag map returned by \<^verbatim>\<open>get_tags_quay\<close> is timezone-aware.\<close>

lemma quay_tags_aware:
  assumes "quay_tags L ts tags = Inr tags'" and "\<forall>item\<in>set tags. is_aware (snd item)"
  shows "\<forall>item\<in>set tags'. is_aware (snd item)"
  using assms
proof (induction ts arbitrary: tags)
  case Nil
  then show ?case by simp
next
  case (Cons t ts)
  from Cons.prems(1) obtain k d where
    rest: "quay_tags L ts (AList.update k (assume_utc d) tags) = Inr tags'"
    by (auto split: sum.splits)
  have "\<forall>item\<in>set (AList.update k (assume_utc d) tags). is_aware (snd item)"
    using set_update_subset[of k "assume_utc d" tags] Cons.prems(2)
    by (auto simp: is_aware_assume_utc)
  from Cons.IH[OF rest this] show ?case .
qed

lemma quay_page_aware:
  assumes "quay_page L r tags = Inr (tags', flag)" and "\<forall>item\<in>set tags. is_aware (snd item)"
  shows "\<forall>item\<in>set tags'. is_aware (snd item)"
  using assms quay_tags_aware
  by (fastforce simp: quay_page_def split: sum.splits)

lemma get_tags_quay_loop_aware:
  assumes "get_tags_quay_loop L repo page tags w = Some y"
  shows "(\<forall>item\<in>set tags. is_aware (snd item)) \<longrightarrow>
         (\<forall>ts v. y = (Inr ts, v) \<longrightarrow> (\<forall>item\<in>set ts. is_aware (snd item)))"
proof (rule get_tags_quay_loop.raw_induct
    [where P = "\<lambda>(L::pylib) (repo::string) (page::int) (tags::tags) (w::world)
                   (y::(error + tags) \<times> world).
                  (\<forall>item\<in>set tags. is_aware (snd item)) \<longrightarrow>
                  (\<forall>ts v. y = (Inr ts, v) \<longrightarrow> (\<forall>item\<in>set ts. is_aware (snd item)))",
     OF _ assms])
  fix loop :: "pylib \<Rightarrow> string \<Rightarrow> int \<Rightarrow> tags \<Rightarrow> world \<Rightarrow> ((error + tags) \<times> world) option"
  fix L repo page w y and tags :: tags
  assume 1: "\<And>L repo page tags w y. loop L repo page tags w = Some y \<Longrightarrow>
                 (\<forall>item\<in>set tags. is_aware (snd item)) \<longrightarrow>
                 (\<forall>ts v. y = (Inr ts, v) \<longrightarrow> (\<forall>item\<in>set ts. is_aware (snd item)))"
     "(case quay_send (quay_tag_request repo page) w of
         (Inl e, w1) \<Rightarrow> Some (Inl e, w1)
       | (Inr r, w1) \<Rightarrow>
           (case quay_page L r tags of
              Inl e \<Rightarrow> Some (Inl e, w1)
            | Inr (tags', has_additional) \<Rightarrow>
                if truthy has_additional then loop L repo (page + 1) tags' w1
                else Some (Inr tags', w1))) = Some y"
  show "(\<forall>item\<in>set tags. is_aware (snd item)) \<longrightarrow>
        (\<forall>ts v. y = (Inr ts, v) \<longrightarrow> (\<forall>item\<in>set ts. is_aware (snd item)))"
  proof (intro impI allI)
    fix ts v
    assume aw: "\<forall>item\<in>set tags. is_aware (snd item)" and y: "y = (Inr ts, v)"
    obtain reply w1 where sent: "quay_send (quay_tag_request repo page) w = (reply, w1)"
      by (cases "quay_send (quay_tag_request repo page) w")
    with 1(2) y obtain r where r: "reply = Inr r" by (cases reply) auto
    with 1(2) y sent obtain tags1 flag where pg: "quay_page L r tags = Inr (tags1, flag)"
      by (cases "quay_page L r tags") auto
    from quay_page_aware[OF pg aw] have aw1: "\<forall>item\<in>set tags1. is_aware (snd item)" .
    show "\<forall>item\<in>set ts. is_aware (snd item)"
    proof (cases "truthy flag")
      case True
      with 1(2) y sent r pg have "loop L repo (page + 1) tags1 w1 = Some (Inr ts, v)"
        by simp
      from 1(1)[OF this] aw1 show ?thesis by blast
    next
      case False
      with 1(2) y sent r pg have "ts = tags1" by simp
      with aw1 show ?thesis by simp
    qed
  qed
qed

lemma get_tags_quay_aware:
  "get_tags_quay L repo w = Some (Inr tags, w') \<Longrightarrow> \<forall>item\<in>set tags. is_aware (snd item)"
  using get_tags_quay_loop_aware[of L repo 1 "[]" w "(Inr tags, w')"] by (simp add: get_tags_quay_def)

end
